theory Spec2Isabelle
  imports Main
begin

section \<open>Python string primitives used by the client\<close>

text \<open>
  The client is Python 2: exchanged data are byte strings (\<open>str\<close>), modelled as
  \<^typ>\<open>string\<close>; integers are unbounded, modelled as \<^typ>\<open>int\<close>.
\<close>

abbreviation nl :: char where "nl \<equiv> CHR 0x0A"
abbreviation dq :: char where "dq \<equiv> CHR 0x22"

text \<open>Whitespace of \<open>str.split()\<close>: space, tab, LF, VT, FF, CR.\<close>

definition is_space :: "char \<Rightarrow> bool" where
  "is_space c = ((of_char c :: nat) \<in> {32, 9, 10, 11, 12, 13})"

definition is_digit :: "char \<Rightarrow> bool" where
  "is_digit c = (48 \<le> (of_char c :: nat) \<and> (of_char c :: nat) \<le> 57)"

text \<open>\<open>s.split()\<close>: maximal runs of non-whitespace characters, in order.\<close>

fun py_split_acc :: "string \<Rightarrow> string \<Rightarrow> string list" where
  "py_split_acc cur [] = (if cur = [] then [] else [cur])"
| "py_split_acc cur (c # cs) =
     (if is_space c
      then (if cur = [] then py_split_acc [] cs else cur # py_split_acc [] cs)
      else py_split_acc (cur @ [c]) cs)"

definition py_split :: "string \<Rightarrow> string list" where
  "py_split s = py_split_acc [] s"

text \<open>\<open>s.split(sep)\<close> for a one-character separator: empty pieces are kept.\<close>

fun py_split_on_acc :: "char \<Rightarrow> string \<Rightarrow> string \<Rightarrow> string list" where
  "py_split_on_acc sep cur [] = [cur]"
| "py_split_on_acc sep cur (c # cs) =
     (if c = sep then cur # py_split_on_acc sep [] cs
      else py_split_on_acc sep (cur @ [c]) cs)"

definition py_split_on :: "char \<Rightarrow> string \<Rightarrow> string list" where
  "py_split_on sep s = py_split_on_acc sep [] s"

text \<open>\<open>s.splitlines()\<close> on a byte string: lines end at LF, CR or CR LF; no final empty line.\<close>

fun py_splitlines_acc :: "string \<Rightarrow> string \<Rightarrow> string list" where
  "py_splitlines_acc cur [] = (if cur = [] then [] else [cur])"
| "py_splitlines_acc cur (c # cs) =
     (if c = nl then cur # py_splitlines_acc [] cs
      else if c = CHR 0x0D then
        (case cs of
           [] \<Rightarrow> [cur]
         | d # ds \<Rightarrow> if d = nl then cur # py_splitlines_acc [] ds
                     else cur # py_splitlines_acc [] cs)
      else py_splitlines_acc (cur @ [c]) cs)"

definition py_splitlines :: "string \<Rightarrow> string list" where
  "py_splitlines s = py_splitlines_acc [] s"

definition py_isdigit :: "string \<Rightarrow> bool" where
  "py_isdigit s = (s \<noteq> [] \<and> list_all is_digit s)"

definition digit_val :: "char \<Rightarrow> nat" where
  "digit_val c = of_char c - 48"

definition digits_val :: "string \<Rightarrow> nat" where
  "digits_val s = foldl (\<lambda>a c. a * 10 + digit_val c) 0 s"

text \<open>
  \<open>int(s)\<close> in base 10 on a token without whitespace (every call site passes such a
  token): an optional sign and at least one decimal digit, otherwise \<open>ValueError\<close>,
  here \<open>None\<close>.
\<close>

definition py_int :: "string \<Rightarrow> int option" where
  "py_int s =
     (case s of
        [] \<Rightarrow> None
      | c # cs \<Rightarrow>
          if c = CHR ''-'' then (if py_isdigit cs then Some (- int (digits_val cs)) else None)
          else if c = CHR ''+'' then (if py_isdigit cs then Some (int (digits_val cs)) else None)
          else if py_isdigit s then Some (int (digits_val s)) else None)"

definition digit_char :: "nat \<Rightarrow> char" where
  "digit_char d = ''0123456789'' ! d"

fun str_nat :: "nat \<Rightarrow> string" where
  "str_nat n = (if n < 10 then [digit_char n] else str_nat (n div 10) @ [digit_char (n mod 10)])"

declare str_nat.simps [simp del]

text \<open>\<open>str(i)\<close> of an integer.\<close>

definition py_str :: "int \<Rightarrow> string" where
  "py_str i = (if i < 0 then CHR ''-'' # str_nat (nat (- i)) else str_nat (nat i))"

fun startswith :: "'a list \<Rightarrow> 'a list \<Rightarrow> bool" where
  "startswith xs [] = True"
| "startswith [] (y # ys) = False"
| "startswith (x # xs) (y # ys) = (x = y \<and> startswith xs ys)"

text \<open>\<open>data.find(sub)\<close>: the least index where \<open>sub\<close> occurs, \<open>-1\<close> when it does not.\<close>

fun py_find :: "'a list \<Rightarrow> 'a list \<Rightarrow> int" where
  "py_find [] sub = (if sub = [] then 0 else - 1)"
| "py_find (x # xs) sub =
     (if startswith (x # xs) sub then 0
      else (let r = py_find xs sub in if r < 0 then - 1 else r + 1))"

text \<open>
  \<open>xs[i] = v\<close> on a Python list: a negative index counts from the end, an index out of
  range raises \<open>IndexError\<close>, here \<open>None\<close>.
\<close>

definition py_setitem :: "'a list \<Rightarrow> int \<Rightarrow> 'a \<Rightarrow> 'a list option" where
  "py_setitem xs i v =
     (if 0 \<le> i \<and> i < int (length xs) then Some (xs[nat i := v])
      else if i < 0 \<and> - int (length xs) \<le> i then Some (xs[nat (int (length xs) + i) := v])
      else None)"

section \<open>The socket\<close>

text \<open>
  One \<open>recv\<close> on the client socket either delivers a chunk (possibly empty, when the peer
  has closed) or raises (\<open>socket.timeout\<close> after \<open>readtimeout\<close> seconds, or another
  socket error). The engine is not modelled: what it sends is an arbitrary stream of such
  outcomes, consumed one per \<open>recv\<close>. Every packet given to \<open>send\<close> is appended to the
  log \<open>sent\<close>; \<open>send\<close> is taken to succeed.
\<close>

datatype recv_result = Chunk string | RecvError

record sock =
  sent :: "string list"
  incoming :: "nat \<Rightarrow> recv_result"

definition sock_send :: "sock \<Rightarrow> string \<Rightarrow> sock" where
  "sock_send s packet = s\<lparr>sent := sent s @ [packet]\<rparr>"

definition sock_recv :: "sock \<Rightarrow> recv_result \<times> sock" where
  "sock_recv s = (incoming s 0, s\<lparr>incoming := (\<lambda>n. incoming s (Suc n))\<rparr>)"

section \<open>FluidSynthApi\<close>

record api =
  fontFilesLoaded :: "int \<rightharpoonup> string"
  fontsInUse :: "int list"
  instrumentsInUse :: "string list"
  selectedChannel :: int
  activeChannel :: int
  activeSoundFontId :: int
  activeSoundFontFile :: string
  activeInstrument :: string
  eof :: string
  clientsocket :: sock

text \<open>The fields as \<open>__init__\<close> sets them, on a connected socket.\<close>

definition init_api :: "sock \<Rightarrow> api" where
  "init_api s =
     \<lparr> fontFilesLoaded = Map.empty,
       fontsInUse = replicate 16 (- 1),
       instrumentsInUse = replicate 16 [],
       selectedChannel = 1,
       activeChannel = 1,
       activeSoundFontId = - 1,
       activeSoundFontFile = [],
       activeInstrument = [],
       eof = ''.'',
       clientsocket = s \<rparr>"

datatype py_error = Exception string | IndexError | ValueError | KeyError

datatype py_val = PyNone | PyBool bool | PyStr string

definition send :: "api \<Rightarrow> string \<Rightarrow> api" where
  "send st packet = st\<lparr>clientsocket := sock_send (clientsocket st) packet\<rparr>"

definition max_reads :: nat where
  "max_reads = 1000000"

text \<open>
  The \<open>while i < max_reads\<close> loop of \<open>read\<close>, from the loop variables \<open>i\<close> and \<open>data\<close>.
  It returns their final values and the socket. A raising \<open>recv\<close> leaves the loop through
  the \<open>except\<close> clause with \<open>data\<close> as accumulated.
\<close>

function read_loop :: "string \<Rightarrow> sock \<Rightarrow> nat \<Rightarrow> string \<Rightarrow> nat \<times> string \<times> sock" where
  "read_loop eofm s i data =
     (if i < max_reads then
        (case sock_recv s of
           (RecvError, s') \<Rightarrow> (i + 1, data, s')
         | (Chunk part, s') \<Rightarrow>
             (let data' = data @ part;
                  pos = py_find data' ([nl] @ eofm @ [nl])
              in if pos > - 1 then (i + 1, take (nat pos) data', s')
                 else read_loop eofm s' (i + 1) data'))
      else (i, data, s))"
  by pat_completeness auto
termination
  by (relation "measure (\<lambda>(eofm, s, i, data). max_reads - i)") auto

declare read_loop.simps [simp del]

definition read :: "api \<Rightarrow> string \<times> api" where
  "read st =
     (let st1 = send st (''echo '' @ [dq, dq, nl]);
          st2 = send st1 (''echo '' @ eof st1 @ [nl]);
          (i, data, s') = read_loop (eof st2) (clientsocket st2) 0 []
      in (data, st2\<lparr>clientsocket := s'\<rparr>))"

text \<open>\<open>cmd\<close>: \<open>True\<close> when non-blocking, the response text otherwise.\<close>

definition cmd :: "api \<Rightarrow> string \<Rightarrow> bool \<Rightarrow> py_val \<times> api" where
  "cmd st packet non_blocking =
     (let st1 = send st (packet @ [nl])
      in if non_blocking then (PyBool True, st1)
         else (let (data, st2) = read st1 in (PyStr data, st2)))"

text \<open>A blocking \<open>cmd\<close>, with the result as the string it is.\<close>

definition cmd_read :: "api \<Rightarrow> string \<Rightarrow> string \<times> api" where
  "cmd_read st packet = read (send st (packet @ [nl]))"

subsection \<open>Variables of the engine\<close>

definition setValue :: "api \<Rightarrow> string \<Rightarrow> string \<Rightarrow> api" where
  "setValue st key val = snd (cmd st (''set '' @ key @ '' '' @ val) True)"

definition getValue :: "api \<Rightarrow> string \<Rightarrow> string \<times> api" where
  "getValue st key =
     (let (val, st1) = cmd_read st (''get '' @ key);
          vals = py_split val
      in if length vals \<noteq> 0 then (last vals, st1) else ([], st1))"

text \<open>
  Python floats are not modelled. The operations on them that the gain functions use are
  parameters: \<open>str(x)\<close>, \<open>float(s)\<close> (\<open>None\<close> for \<open>ValueError\<close>), \<open>x * 2\<close> and \<open>x / 2\<close>.
\<close>

record 'f float_ops =
  float_str :: "'f \<Rightarrow> string"
  float_parse :: "string \<Rightarrow> 'f option"
  float_twice :: "'f \<Rightarrow> 'f"
  float_half :: "'f \<Rightarrow> 'f"

definition getNumValue :: "'f float_ops \<Rightarrow> api \<Rightarrow> string \<Rightarrow> (py_error + 'f) \<times> api" where
  "getNumValue fl st key =
     (let (val, st1) = getValue st key
      in case float_parse fl val of
           None \<Rightarrow> (Inl ValueError, st1)
         | Some v \<Rightarrow> (Inr v, st1))"

subsection \<open>Channel control\<close>

text \<open>\<open>setSelectedChannel\<close> applies \<open>int\<close> to its argument; here the argument is an integer.\<close>

definition setSelectedChannel :: "api \<Rightarrow> int \<Rightarrow> api" where
  "setSelectedChannel st channel = st\<lparr>selectedChannel := channel\<rparr>"

definition getSelectedChannel :: "api \<Rightarrow> int" where
  "getSelectedChannel st = selectedChannel st"

definition getSelectedChannel0 :: "api \<Rightarrow> int" where
  "getSelectedChannel0 st = selectedChannel st - 1"

subsection \<open>Sound fonts\<close>

text \<open>
  \<open>loadSoundFont\<close>. A \<open>ValueError\<close> of \<open>int\<close> in the comprehension would be caught by the
  \<open>except\<close> clause, which falls through to \<open>return -1\<close>.
\<close>

definition loadSoundFont :: "api \<Rightarrow> string \<Rightarrow> int \<times> api" where
  "loadSoundFont st sf2Filename =
     (let (data, st1) = cmd_read st (''load '' @ [dq] @ sf2Filename @ [dq])
      in case those (map py_int (filter py_isdigit (py_split data))) of
           None \<Rightarrow> (- 1, st1)
         | Some ids \<Rightarrow>
             if length ids > 0 then
               (let ident = last ids
                in (ident, st1\<lparr>fontFilesLoaded := (fontFilesLoaded st1)(ident \<mapsto> sf2Filename),
                               activeSoundFontId := ident,
                               activeSoundFontFile := sf2Filename\<rparr>))
             else (- 1, st1))"

text \<open>
  The \<open>for id in ids\<close> loop of \<open>getSoundFonts\<close>. The inner \<open>try\<close> catches the
  \<open>IndexError\<close> of \<open>parts[0]\<close> on a line without a token and the \<open>ValueError\<close> of \<open>int\<close>;
  both go on with the next line.
\<close>

fun getSoundFonts_loop :: "string list \<Rightarrow> int list \<Rightarrow> int list" where
  "getSoundFonts_loop [] ids_clean = ids_clean"
| "getSoundFonts_loop (line # ids) ids_clean =
     (case py_split line of
        [] \<Rightarrow> getSoundFonts_loop ids ids_clean
      | p0 # _ \<Rightarrow>
          if p0 \<noteq> ''ID'' then
            (case py_int p0 of
               None \<Rightarrow> getSoundFonts_loop ids ids_clean
             | Some id2 \<Rightarrow> getSoundFonts_loop ids (ids_clean @ [id2]))
          else getSoundFonts_loop ids ids_clean)"

definition getSoundFonts :: "api \<Rightarrow> int list \<times> api" where
  "getSoundFonts st =
     (let (data, st1) = cmd_read st ''fonts''
      in (getSoundFonts_loop (py_splitlines data) [], st1))"

text \<open>
  The \<open>for id in ids\<close> loop of \<open>unloadSoundFonts\<close>. \<open>del\<close> of a key that the dictionary
  does not have raises \<open>KeyError\<close>, which the \<open>except\<close> clause around the loop catches:
  the loop is left, after the \<open>unload\<close> command of that id has been sent.
\<close>

fun unloadSoundFonts_loop :: "api \<Rightarrow> int list \<Rightarrow> api" where
  "unloadSoundFonts_loop st [] = st"
| "unloadSoundFonts_loop st (ident # ids) =
     (if ident \<in> set (fontsInUse st) then unloadSoundFonts_loop st ids
      else
        (let (r, st1) = cmd st (''unload '' @ py_str ident) True
         in case fontFilesLoaded st1 ident of
              None \<Rightarrow> st1
            | Some f \<Rightarrow>
                unloadSoundFonts_loop
                  (st1\<lparr>fontFilesLoaded := (fontFilesLoaded st1)(ident := None)\<rparr>) ids))"

definition unloadSoundFonts :: "api \<Rightarrow> api" where
  "unloadSoundFonts st = (let (ids, st1) = getSoundFonts st in unloadSoundFonts_loop st1 ids)"

definition getInstruments :: "api \<Rightarrow> int \<Rightarrow> string list \<times> api" where
  "getInstruments st ident =
     (if ident < 0 then ([], st)
      else (let (data, st1) = cmd_read st (''inst '' @ py_str ident)
            in (py_splitlines data, st1)))"

subsection \<open>Instruments\<close>

text \<open>
  The \<open>try\<close> block of \<open>setInstrument\<close>: the exception raised, or the value returned, with
  the state as it is at that point.
\<close>

definition setInstrument_try :: "api \<Rightarrow> string \<Rightarrow> (py_error + py_val) \<times> api" where
  "setInstrument_try st instrumentName =
     (case py_split instrumentName of
        [] \<Rightarrow> (Inl IndexError, st)
      | p0 # _ \<Rightarrow>
          (let ids = py_split_on CHR ''-'' p0;
               chan0 = py_str (getSelectedChannel0 st);
               font = py_str (activeSoundFontId st)
           in case ids of
                bank # prog # _ \<Rightarrow>
                  (let (data, st1) =
                         cmd st (''select '' @ chan0 @ '' '' @ font @ '' '' @ bank @ '' '' @ prog) True;
                       st2 = st1\<lparr>activeInstrument := instrumentName\<rparr>
                   in case (py_int chan0, py_int font) of
                        (Some c, Some f) \<Rightarrow>
                          (case py_setitem (fontsInUse st2) c f of
                             None \<Rightarrow> (Inl IndexError, st2)
                           | Some fiu \<Rightarrow>
                               (let st3 = st2\<lparr>fontsInUse := fiu\<rparr>
                                in case py_setitem (instrumentsInUse st3) c instrumentName of
                                     None \<Rightarrow> (Inl IndexError, st3)
                                   | Some iiu \<Rightarrow>
                                       (let st4 = st3\<lparr>instrumentsInUse := iiu\<rparr>;
                                            st5 = st4\<lparr>activeChannel := getSelectedChannel st4\<rparr>
                                        in (Inr data, st5))))
                      | _ \<Rightarrow> (Inl ValueError, st2))
              | _ \<Rightarrow> (Inl IndexError, st)))"

text \<open>
  \<open>setInstrument\<close>: raises on an empty name, returns \<open>''\<close> without an active sound font,
  \<open>True\<close> (the value of the non-blocking \<open>cmd\<close>) when the \<open>try\<close> block runs through, and
  \<open>False\<close> when the block raised.
\<close>

definition setInstrument :: "api \<Rightarrow> string \<Rightarrow> (py_error + py_val) \<times> api" where
  "setInstrument st instrumentName =
     (if instrumentName = [] then (Inl (Exception ''instrument name cannot be blank''), st)
      else if activeSoundFontId st < 0 then (Inr (PyStr []), st)
      else (case setInstrument_try st instrumentName of
              (Inr data, st') \<Rightarrow> (Inr data, st')
            | (Inl e, st') \<Rightarrow> (Inr (PyBool False), st')))"

subsection \<open>Gain\<close>

definition setGain :: "'f float_ops \<Rightarrow> api \<Rightarrow> 'f \<Rightarrow> api" where
  "setGain fl st val =
     (let (r, st1) = cmd st (''gain '' @ float_str fl val) True
      in setValue st1 ''synth.gain'' (float_str fl (float_twice fl val)))"

text \<open>
  \<open>getGain\<close> has no \<open>return\<close> statement: the quotient is computed and dropped, and the
  call yields Python's \<open>None\<close>, here \<open>Inr None\<close>. A gain would be \<open>Inr (Some g)\<close>.
\<close>

definition getGain :: "'f float_ops \<Rightarrow> api \<Rightarrow> (py_error + 'f option) \<times> api" where
  "getGain fl st =
     (case getNumValue fl st ''synth.gain'' of
        (Inl e, st1) \<Rightarrow> (Inl e, st1)
      | (Inr v, st1) \<Rightarrow> (let q = float_half fl v in (Inr None, st1)))"

section \<open>Auxiliary notions for the statements\<close>

text \<open>The bytes delivered by the first \<open>n\<close> outcomes of a stream of \<open>recv\<close> outcomes.\<close>

primrec received :: "(nat \<Rightarrow> recv_result) \<Rightarrow> nat \<Rightarrow> string" where
  "received inc 0 = []"
| "received inc (Suc n) = received inc n @ (case inc n of Chunk part \<Rightarrow> part | RecvError \<Rightarrow> [])"

text \<open>The socket as \<open>read\<close> finds it when the loop starts: the command and the two echoes sent.\<close>

definition framed :: "api \<Rightarrow> string \<Rightarrow> sock" where
  "framed st packet =
     (clientsocket st)\<lparr>sent := sent (clientsocket st) @
        [packet @ [nl], ''echo '' @ [dq, dq, nl], ''echo '' @ eof st @ [nl]]\<rparr>"

text \<open>The final value of the loop counter \<open>i\<close> of a blocking \<open>cmd\<close>: the number of \<open>recv\<close> calls.\<close>

definition cmd_reads :: "api \<Rightarrow> string \<Rightarrow> nat" where
  "cmd_reads st packet = fst (read_loop (eof st) (framed st packet) 0 [])"

text \<open>What \<open>getSoundFonts\<close> is to take from one line of the listing.\<close>

definition line_id :: "string \<Rightarrow> int option" where
  "line_id line =
     (case py_split line of
        [] \<Rightarrow> None
      | p0 # _ \<Rightarrow> if p0 = ''ID'' then None else py_int p0)"

text \<open>The packets a call has sent: those in the log of \<open>st'\<close> beyond the log of \<open>st\<close>.\<close>

definition new_packets :: "api \<Rightarrow> api \<Rightarrow> string list" where
  "new_packets st st' = drop (length (sent (clientsocket st))) (sent (clientsocket st'))"

definition select_packet :: "int \<Rightarrow> int \<Rightarrow> string \<Rightarrow> string \<Rightarrow> string" where
  "select_packet chan font bank prog =
     ''select '' @ py_str chan @ '' '' @ py_str font @ '' '' @ bank @ '' '' @ prog @ [nl]"

definition unload_packet :: "int \<Rightarrow> string" where
  "unload_packet k = ''unload '' @ py_str k @ [nl]"


text \<open>Sequences of calls on one client; an exception of \<open>setInstrument\<close> stays with the caller.\<close>

datatype call = LoadBank string | UnloadUnreferenced | SelectInstrument string

fun step :: "api \<Rightarrow> call \<Rightarrow> api" where
  "step st (LoadBank path) = snd (loadSoundFont st path)"
| "step st UnloadUnreferenced = unloadSoundFonts st"
| "step st (SelectInstrument name) = snd (setInstrument st name)"

fun run :: "api \<Rightarrow> call list \<Rightarrow> api" where
  "run st [] = st"
| "run st (c # cs) = run (step st c) cs"

text \<open>Every channel slot holds \<open>-1\<close> or a key of the map of loaded sound fonts.\<close>

definition chan_ok :: "api \<Rightarrow> bool" where
  "chan_ok st = list_all (\<lambda>b. b = - 1 \<or> fontFilesLoaded st b \<noteq> None) (fontsInUse st)"

text \<open>
  A sequence of calls in which each \<open>setInstrument\<close> finds the active sound font id negative
  or among the keys of the map.
\<close>

fun active_loaded :: "api \<Rightarrow> call list \<Rightarrow> bool" where
  "active_loaded st [] = True"
| "active_loaded st (SelectInstrument name # cs) =
     ((activeSoundFontId st < 0 \<or> fontFilesLoaded st (activeSoundFontId st) \<noteq> None) \<and>
      active_loaded (step st (SelectInstrument name)) cs)"
| "active_loaded st (c # cs) = active_loaded (step st c) cs"

section \<open>Concrete inputs of the examples\<close>

text \<open>A response whose end marker arrives split over two reads, and one cut off by a timeout.\<close>

definition split_stream :: "nat \<Rightarrow> recv_result" where
  "split_stream n =
     (if n = 0 then Chunk (''abc'' @ [nl] @ ''.'') else if n = 1 then Chunk [nl] else RecvError)"

definition split_st :: api where
  "split_st = init_api \<lparr>sent = [], incoming = split_stream\<rparr>"

definition short_stream :: "nat \<Rightarrow> recv_result" where
  "short_stream n = (if n = 0 then Chunk ''ab'' else RecvError)"

definition short_st :: api where
  "short_st = init_api \<lparr>sent = [], incoming = short_stream\<rparr>"

text \<open>
  The engine answers a command with its output, then an empty line and the marker line for
  the two echoes; here all in one chunk.
\<close>

definition answer :: "string \<Rightarrow> recv_result" where
  "answer text = Chunk (text @ [nl] @ ''.'' @ [nl])"

definition load_stream :: "nat \<Rightarrow> recv_result" where
  "load_stream n = (if n = 0 then answer (''loaded SoundFont has ID 3'' @ [nl]) else RecvError)"

definition load_st :: api where
  "load_st = init_api \<lparr>sent = [], incoming = load_stream\<rparr>"

definition refused_stream :: "nat \<Rightarrow> recv_result" where
  "refused_stream n =
     (if n = 0 then answer (''fluidsynth: error: Failed to load SoundFont'' @ [nl]) else RecvError)"

definition refused_st :: api where
  "refused_st = init_api \<lparr>sent = [], incoming = refused_stream\<rparr>"

definition fonts_listing :: string where
  "fonts_listing =
     ''ID  Name'' @ [nl] @
     '' 1  /home/user/sf2/Choir.sf2'' @ [nl] @
     '' 2  /home/user/sf2/Brass.sf2'' @ [nl]"

definition fonts_stream :: "nat \<Rightarrow> recv_result" where
  "fonts_stream n = (if n = 0 then answer fonts_listing else RecvError)"

definition fonts_st :: api where
  "fonts_st = init_api \<lparr>sent = [], incoming = fonts_stream\<rparr>"

text \<open>Two sound fonts loaded, the first one on channel 1; the engine lists both.\<close>

definition two_fonts_st :: api where
  "two_fonts_st =
     (init_api \<lparr>sent = [], incoming = fonts_stream\<rparr>)
       \<lparr> fontFilesLoaded := [1 \<mapsto> ''/home/user/sf2/Choir.sf2'', 2 \<mapsto> ''/home/user/sf2/Brass.sf2''],
         fontsInUse := (replicate 16 (- 1))[0 := 1],
         activeSoundFontId := 2 \<rparr>"

text \<open>Sound font 4 active, channel 3 selected.\<close>

definition trumpet_st :: api where
  "trumpet_st =
     (init_api \<lparr>sent = [], incoming = (\<lambda>n. RecvError)\<rparr>)
       \<lparr> fontFilesLoaded := [4 \<mapsto> ''/home/user/sf2/Brass.sf2''],
         selectedChannel := 3,
         activeSoundFontId := 4 \<rparr>"

text \<open>A load answered with id 1, then a listing that shows this sound font.\<close>

definition load_list_stream :: "nat \<Rightarrow> recv_result" where
  "load_list_stream n =
     (if n = 0 then answer (''loaded SoundFont has ID 1'' @ [nl])
      else if n = 1 then answer (''ID  Name'' @ [nl] @ '' 1  /home/user/sf2/Choir.sf2'' @ [nl])
      else RecvError)"

definition fresh_st :: api where
  "fresh_st = init_api \<lparr>sent = [], incoming = load_list_stream\<rparr>"

section \<open>Conversions between integers and text, splitting\<close>

lemma digit_cases: "d < 10 \<Longrightarrow> d \<in> {0, 1, 2, 3, 4, 5, 6, 7, 8, 9 :: nat}"
  by auto

lemma digit_val_char: "d < 10 \<Longrightarrow> digit_val (digit_char d) = d"
  by (drule digit_cases) (auto simp: digit_val_def digit_char_def)

lemma is_digit_char: "d < 10 \<Longrightarrow> is_digit (digit_char d)"
  by (drule digit_cases) (auto simp: is_digit_def digit_char_def)

lemma str_nat_digits: "py_isdigit (str_nat n)"
proof (induction n rule: str_nat.induct)
  case (1 n)
  show ?case
  proof (cases "n < 10")
    case True
    then show ?thesis by (subst str_nat.simps) (simp add: py_isdigit_def is_digit_char)
  next
    case False
    with 1 have "py_isdigit (str_nat (n div 10))" by simp
    with False show ?thesis
      by (subst str_nat.simps) (simp add: py_isdigit_def is_digit_char)
  qed
qed

lemma digits_val_snoc: "digits_val (s @ [c]) = digits_val s * 10 + digit_val c"
  by (simp add: digits_val_def)

lemma digits_val_str_nat: "digits_val (str_nat n) = n"
proof (induction n rule: str_nat.induct)
  case (1 n)
  show ?case
  proof (cases "n < 10")
    case True
    then show ?thesis by (subst str_nat.simps) (simp add: digits_val_def digit_val_char)
  next
    case False
    with 1 have "digits_val (str_nat (n div 10)) = n div 10" by simp
    with False show ?thesis
      by (subst str_nat.simps) (simp add: digits_val_snoc digit_val_char)
  qed
qed

lemma py_isdigit_int: "py_isdigit s \<Longrightarrow> py_int s = Some (int (digits_val s))"
proof -
  assume d: "py_isdigit s"
  then obtain c cs where s: "s = c # cs" by (cases s) (auto simp: py_isdigit_def)
  with d have "is_digit c" by (simp add: py_isdigit_def)
  then have "c \<noteq> CHR ''-''" "c \<noteq> CHR ''+''" by (auto simp: is_digit_def)
  with d s show ?thesis by (simp add: py_int_def)
qed

lemma py_int_str: "py_int (py_str i) = Some i"
proof (cases "i < 0")
  case True
  then show ?thesis
    using str_nat_digits[of "nat (- i)"]
    by (simp add: py_int_def py_str_def digits_val_str_nat)
next
  case False
  then show ?thesis
    using py_isdigit_int[OF str_nat_digits[of "nat i"]]
    by (simp add: py_str_def digits_val_str_nat)
qed

lemma py_str_inj: "py_str i = py_str j \<Longrightarrow> i = j"
proof -
  assume "py_str i = py_str j"
  then have "py_int (py_str i) = py_int (py_str j)" by simp
  then show ?thesis by (simp add: py_int_str)
qed

lemma those_map_Some: "those (map (\<lambda>x. Some (f x)) xs) = Some (map f xs)"
  by (induction xs) simp_all

lemma those_py_int_digits:
  "those (map py_int (filter py_isdigit ts)) = Some (map (\<lambda>t. int (digits_val t)) (filter py_isdigit ts))"
proof -
  have "map py_int (filter py_isdigit ts) = map (\<lambda>t. Some (int (digits_val t))) (filter py_isdigit ts)"
    by (rule map_cong) (auto simp: py_isdigit_int)
  then show ?thesis by (simp only: those_map_Some)
qed

lemma py_split_on_acc_nosep:
  "sep \<notin> set b \<Longrightarrow> py_split_on_acc sep cur (b @ rest) = py_split_on_acc sep (cur @ b) rest"
  by (induction b arbitrary: cur) auto

lemma py_split_on_acc_length:
  "length (py_split_on_acc sep cur s) = Suc (length (filter (\<lambda>c. c = sep) s))"
  by (induction s arbitrary: cur) auto

lemma py_split_on_two:
  "sep \<notin> set b \<Longrightarrow> sep \<notin> set p \<Longrightarrow> py_split_on sep (b @ [sep] @ p) = [b, p]"
proof -
  assume b: "sep \<notin> set b" and p: "sep \<notin> set p"
  have "py_split_on_acc sep [] (b @ (sep # p)) = py_split_on_acc sep b (sep # p)"
    using py_split_on_acc_nosep[OF b, of "[]" "sep # p"] by simp
  also have "\<dots> = b # py_split_on_acc sep [] (p @ [])" by simp
  also have "py_split_on_acc sep [] (p @ []) = py_split_on_acc sep p []"
    using py_split_on_acc_nosep[OF p, of "[]" "[]"] by simp
  finally show ?thesis by (simp add: py_split_on_def)
qed

lemma py_split_on_short:
  "(\<exists>t. py_split_on sep s = [t]) \<longleftrightarrow> sep \<notin> set s"
proof -
  have "length (py_split_on sep s) = 1 \<longleftrightarrow> sep \<notin> set s"
    by (auto simp add: py_split_on_def py_split_on_acc_length filter_empty_conv)
  then show ?thesis by (simp add: length_Suc_conv)
qed

lemma py_split_on_nonempty: "py_split_on sep s \<noteq> []"
  using py_split_on_acc_length[of sep "[]" s] by (auto simp: py_split_on_def)

lemma py_split_acc_Nil: "py_split_acc cur s = [] \<longleftrightarrow> cur = [] \<and> list_all is_space s"
  by (induction s arbitrary: cur) auto

lemma py_split_Nil: "py_split s = [] \<longleftrightarrow> list_all is_space s"
  by (simp add: py_split_def py_split_acc_Nil)

section \<open>The read loop\<close>

lemma received_shift:
  "received inc (Suc n) =
     (case inc 0 of Chunk part \<Rightarrow> part | RecvError \<Rightarrow> []) @ received (\<lambda>n. inc (Suc n)) n"
  by (induction n) simp_all

lemma read_loop_bound: "i \<le> max_reads \<Longrightarrow> fst (read_loop e s i data) \<le> max_reads"
proof (induction e s i data rule: read_loop.induct)
  case (1 eofm s i data)
  show ?case
  proof (cases "i < max_reads")
    case False
    with 1(2) show ?thesis by (subst read_loop.simps) simp
  next
    case True
    obtain r s' where rs: "sock_recv s = (r, s')" by (cases "sock_recv s")
    show ?thesis
    proof (cases r)
      case RecvError
      with True rs show ?thesis by (subst read_loop.simps) simp
    next
      case (Chunk part)
      show ?thesis
      proof (cases "py_find (data @ part) ([nl] @ eofm @ [nl]) > - 1")
        case found: True
        with True rs Chunk show ?thesis by (subst read_loop.simps) (simp add: Let_def)
      next
        case nf: False
        have "fst (read_loop eofm s' (i + 1) (data @ part)) \<le> max_reads"
          using 1(1)[OF True rs[symmetric] Chunk refl refl] nf True by simp
        with True rs Chunk nf show ?thesis by (subst read_loop.simps) (simp add: Let_def)
      qed
    qed
  qed
qed

lemma read_loop_timeout:
  "i + k < max_reads \<Longrightarrow>
   (\<forall>j<k. incoming s j \<noteq> RecvError \<and> py_find (data @ received (incoming s) (Suc j)) ([nl] @ e @ [nl]) < 0) \<Longrightarrow>
   incoming s k = RecvError \<Longrightarrow>
   fst (snd (read_loop e s i data)) = data @ received (incoming s) k \<and>
   fst (read_loop e s i data) = i + k + 1"
proof (induction k arbitrary: s i data)
  case 0
  then show ?case by (subst (1 2) read_loop.simps) (simp add: sock_recv_def)
next
  case (Suc k)
  from Suc.prems(2) obtain part where part: "incoming s 0 = Chunk part"
    by (cases "incoming s 0") auto
  let ?s' = "s\<lparr>incoming := (\<lambda>n. incoming s (Suc n))\<rparr>"
  have nf: "py_find (data @ part) ([nl] @ e @ [nl]) < 0"
    using Suc.prems(2) part by (auto dest: spec[of _ 0])
  have sh: "\<And>n. received (incoming s) (Suc n) = part @ received (incoming ?s') n"
    using received_shift[of "incoming s"] part by simp
  have IH: "fst (snd (read_loop e ?s' (i + 1) (data @ part))) = (data @ part) @ received (incoming ?s') k \<and>
            fst (read_loop e ?s' (i + 1) (data @ part)) = (i + 1) + k + 1"
  proof (rule Suc.IH)
    show "i + 1 + k < max_reads" using Suc.prems(1) by simp
    show "\<forall>j<k. incoming ?s' j \<noteq> RecvError \<and>
            py_find ((data @ part) @ received (incoming ?s') (Suc j)) ([nl] @ e @ [nl]) < 0"
    proof (intro allI impI)
      fix j assume "j < k"
      then have "Suc j < Suc k" by simp
      with Suc.prems(2) have
        "incoming s (Suc j) \<noteq> RecvError \<and>
         py_find (data @ received (incoming s) (Suc (Suc j))) ([nl] @ e @ [nl]) < 0" by blast
      then show "incoming ?s' j \<noteq> RecvError \<and>
            py_find ((data @ part) @ received (incoming ?s') (Suc j)) ([nl] @ e @ [nl]) < 0"
        using sh[of "Suc j"] by (simp del: received.simps)
    qed
    show "incoming ?s' k = RecvError" using Suc.prems(3) by simp
  qed
  have lt: "i < max_reads" using Suc.prems(1) by simp
  have step: "read_loop e s i data = read_loop e ?s' (i + 1) (data @ part)"
    using lt part nf by (subst read_loop.simps) (simp add: sock_recv_def Let_def)
  show ?case using IH sh[of k] by (simp add: step del: received.simps)
qed


lemma read_loop_found:
  "i + k < max_reads \<Longrightarrow>
   (\<forall>j\<le>k. incoming s j \<noteq> RecvError) \<Longrightarrow>
   (\<forall>j<k. py_find (data @ received (incoming s) (Suc j)) ([nl] @ e @ [nl]) < 0) \<Longrightarrow>
   0 \<le> py_find (data @ received (incoming s) (Suc k)) ([nl] @ e @ [nl]) \<Longrightarrow>
   fst (snd (read_loop e s i data)) =
     take (nat (py_find (data @ received (incoming s) (Suc k)) ([nl] @ e @ [nl])))
       (data @ received (incoming s) (Suc k)) \<and>
   fst (read_loop e s i data) = i + k + 1"
proof (induction k arbitrary: s i data)
  case 0
  from "0.prems"(2) obtain part where part: "incoming s 0 = Chunk part"
    by (cases "incoming s 0") auto
  with "0.prems"(1,4) show ?case
    by (subst (1 2) read_loop.simps) (simp add: sock_recv_def Let_def)
next
  case (Suc k)
  from Suc.prems(2) obtain part where part: "incoming s 0 = Chunk part"
    by (cases "incoming s 0") auto
  let ?s' = "s\<lparr>incoming := (\<lambda>n. incoming s (Suc n))\<rparr>"
  let ?m = "[nl] @ e @ [nl]"
  have nf: "py_find (data @ part) ?m < 0"
    using Suc.prems(3) part by (auto dest: spec[of _ 0])
  have sh: "\<And>n. received (incoming s) (Suc n) = part @ received (incoming ?s') n"
    using received_shift[of "incoming s"] part by simp
  have IH: "fst (snd (read_loop e ?s' (i + 1) (data @ part))) =
              take (nat (py_find ((data @ part) @ received (incoming ?s') (Suc k)) ?m))
                ((data @ part) @ received (incoming ?s') (Suc k)) \<and>
            fst (read_loop e ?s' (i + 1) (data @ part)) = (i + 1) + k + 1"
  proof (rule Suc.IH)
    show "i + 1 + k < max_reads" using Suc.prems(1) by simp
    show "\<forall>j\<le>k. incoming ?s' j \<noteq> RecvError" using Suc.prems(2) by simp
    show "\<forall>j<k. py_find ((data @ part) @ received (incoming ?s') (Suc j)) ?m < 0"
    proof (intro allI impI)
      fix j assume "j < k"
      then have "Suc j < Suc k" by simp
      with Suc.prems(3) have
        "py_find (data @ received (incoming s) (Suc (Suc j))) ?m < 0" by blast
      then show "py_find ((data @ part) @ received (incoming ?s') (Suc j)) ?m < 0"
        using sh[of "Suc j"] by (simp del: received.simps)
    qed
    show "0 \<le> py_find ((data @ part) @ received (incoming ?s') (Suc k)) ?m"
      using Suc.prems(4) sh[of "Suc k"] by (simp del: received.simps)
  qed
  have lt: "i < max_reads" using Suc.prems(1) by simp
  have step: "read_loop e s i data = read_loop e ?s' (i + 1) (data @ part)"
    using lt part nf by (subst read_loop.simps) (simp add: sock_recv_def Let_def)
  show ?case using IH sh[of "Suc k"] by (simp add: step del: received.simps)
qed

lemma startswith_iff: "startswith xs m \<longleftrightarrow> (\<exists>rest. xs = m @ rest)"
  by (induction xs m rule: startswith.induct) auto

lemma py_find_range: "- 1 \<le> py_find xs m \<and> py_find xs m \<le> int (length xs)"
  by (induction xs) (auto simp: Let_def)

lemma py_find_occurs:
  "0 \<le> py_find xs m \<Longrightarrow> startswith (drop (nat (py_find xs m)) xs) m"
proof (induction xs)
  case Nil
  then show ?case by (cases m) (auto split: if_splits)
next
  case (Cons x xs)
  show ?case
  proof (cases "startswith (x # xs) m")
    case True
    then show ?thesis by simp
  next
    case False
    with Cons.prems have r: "0 \<le> py_find xs m"
      by (auto simp: Let_def split: if_splits)
    with False have "py_find (x # xs) m = py_find xs m + 1" by (simp add: Let_def)
    moreover have "nat (py_find xs m + 1) = Suc (nat (py_find xs m))" using r by simp
    ultimately show ?thesis using Cons.IH[OF r] by simp
  qed
qed

lemma py_find_first:
  "q < nat (py_find xs m) \<Longrightarrow> \<not> startswith (drop q xs) m"
proof (induction xs arbitrary: q)
  case Nil
  then show ?case by (auto split: if_splits)
next
  case (Cons x xs)
  show ?case
  proof (cases "startswith (x # xs) m")
    case True
    with Cons.prems show ?thesis by simp
  next
    case False
    show ?thesis
    proof (cases q)
      case 0
      with False show ?thesis by simp
    next
      case (Suc q')
      from Cons.prems False have "q < nat (py_find xs m + 1)" "0 \<le> py_find xs m"
        by (auto simp: Let_def split: if_splits)
      with Suc have "q' < nat (py_find xs m)" by simp
      from Cons.IH[OF this] Suc show ?thesis by simp
    qed
  qed
qed

lemma py_find_missing: "py_find xs m < 0 \<Longrightarrow> \<not> startswith (drop q xs) m"
proof (induction xs arbitrary: q)
  case Nil
  then show ?case by (cases m) (auto split: if_splits)
next
  case (Cons x xs)
  then have a: "\<not> startswith (x # xs) m" and b: "py_find xs m < 0"
    by (auto simp: Let_def split: if_splits)
  show ?case
  proof (cases q)
    case 0
    with a show ?thesis by simp
  next
    case (Suc q')
    with Cons.IH[OF b] show ?thesis by simp
  qed
qed


lemma read_loop_sent: "sent (snd (snd (read_loop e s i data))) = sent s"
proof (induction e s i data rule: read_loop.induct)
  case (1 eofm s i data)
  show ?case
  proof (cases "i < max_reads")
    case False
    then show ?thesis by (subst read_loop.simps) simp
  next
    case True
    obtain r s' where rs: "sock_recv s = (r, s')" by (cases "sock_recv s")
    then have s': "sent s' = sent s" by (auto simp: sock_recv_def)
    show ?thesis
    proof (cases r)
      case RecvError
      with True rs s' show ?thesis by (subst read_loop.simps) simp
    next
      case (Chunk part)
      show ?thesis
      proof (cases "py_find (data @ part) ([nl] @ eofm @ [nl]) > - 1")
        case found: True
        with True rs Chunk s' show ?thesis by (subst read_loop.simps) (simp add: Let_def)
      next
        case nf: False
        have "sent (snd (snd (read_loop eofm s' (i + 1) (data @ part)))) = sent s'"
          using 1[OF True rs[symmetric] Chunk refl refl] nf by simp
        with True rs Chunk nf s' show ?thesis by (subst read_loop.simps) (simp add: Let_def)
      qed
    qed
  qed
qed

section \<open>Commands\<close>

lemma cmd_blocking:
  "cmd st packet False =
     (PyStr (fst (snd (read_loop (eof st) (framed st packet) 0 []))),
      st\<lparr>clientsocket := snd (snd (read_loop (eof st) (framed st packet) 0 []))\<rparr>)"
  by (simp add: cmd_def read_def send_def sock_send_def framed_def Let_def split: prod.splits)

lemma cmd_read_blocking:
  "cmd_read st packet =
     (fst (snd (read_loop (eof st) (framed st packet) 0 [])),
      st\<lparr>clientsocket := snd (snd (read_loop (eof st) (framed st packet) 0 []))\<rparr>)"
  by (simp add: cmd_read_def read_def send_def sock_send_def framed_def Let_def split: prod.splits)

lemma cmd_nonblocking:
  "cmd st packet True =
     (PyBool True, st\<lparr>clientsocket := (clientsocket st)\<lparr>sent := sent (clientsocket st) @ [packet @ [nl]]\<rparr>\<rparr>)"
  by (simp add: cmd_def send_def sock_send_def Let_def)

lemma cmd_as_cmd_read:
  "cmd st packet False = (PyStr (fst (cmd_read st packet)), snd (cmd_read st packet))"
  by (simp add: cmd_blocking cmd_read_blocking)

lemma cmd_read_frame:
  "snd (cmd_read st packet) = st\<lparr>clientsocket := clientsocket (snd (cmd_read st packet))\<rparr>"
  by (simp add: cmd_read_blocking)

lemma cmd_read_sent:
  "sent (clientsocket (snd (cmd_read st packet))) =
     sent (clientsocket st) @ [packet @ [nl], ''echo '' @ [dq, dq, nl], ''echo '' @ eof st @ [nl]]"
  by (simp add: cmd_read_blocking read_loop_sent framed_def)

section \<open>Framing of a blocking command\<close>

text \<open>
  C6. The read loop of a blocking \<open>cmd\<close> is a total function that makes at most
  \<open>max_reads\<close> = 1000000 calls of \<open>recv\<close>, whatever the peer sends. The end marker is
  searched in the accumulated data: when the first \<open>k + 1\<close> reads deliver chunks and the
  marker occurs in their concatenation but in no shorter one, the result is that
  concatenation up to the first occurrence of the marker, however the chunks are cut. When
  the read number \<open>k + 1\<close> raises (timeout) before the marker was seen, the result is the
  data of the \<open>k\<close> chunks before, returned as an ordinary value.
\<close>

theorem blocking_cmd_bounded_read:
  "cmd_reads st packet \<le> max_reads \<and>
   (\<forall>k. k < max_reads \<and>
        (\<forall>j\<le>k. incoming (clientsocket st) j \<noteq> RecvError) \<and>
        (\<forall>j<k. py_find (received (incoming (clientsocket st)) (Suc j)) ([nl] @ eof st @ [nl]) < 0) \<and>
        0 \<le> py_find (received (incoming (clientsocket st)) (Suc k)) ([nl] @ eof st @ [nl])
      \<longrightarrow> cmd_reads st packet = k + 1 \<and>
          fst (cmd st packet False) =
            PyStr (take (nat (py_find (received (incoming (clientsocket st)) (Suc k)) ([nl] @ eof st @ [nl])))
                     (received (incoming (clientsocket st)) (Suc k)))) \<and>
   (\<forall>k. k < max_reads \<and>
        (\<forall>j<k. incoming (clientsocket st) j \<noteq> RecvError \<and>
               py_find (received (incoming (clientsocket st)) (Suc j)) ([nl] @ eof st @ [nl]) < 0) \<and>
        incoming (clientsocket st) k = RecvError
      \<longrightarrow> cmd_reads st packet = k + 1 \<and>
          fst (cmd st packet False) = PyStr (received (incoming (clientsocket st)) k))"
proof (intro conjI allI impI)
  show "cmd_reads st packet \<le> max_reads"
    unfolding cmd_reads_def by (rule read_loop_bound) simp
next
  fix k
  assume h: "k < max_reads \<and>
        (\<forall>j\<le>k. incoming (clientsocket st) j \<noteq> RecvError) \<and>
        (\<forall>j<k. py_find (received (incoming (clientsocket st)) (Suc j)) ([nl] @ eof st @ [nl]) < 0) \<and>
        0 \<le> py_find (received (incoming (clientsocket st)) (Suc k)) ([nl] @ eof st @ [nl])"
  have inc: "incoming (framed st packet) = incoming (clientsocket st)"
    by (simp add: framed_def)
  have r: "fst (snd (read_loop (eof st) (framed st packet) 0 [])) =
     take (nat (py_find ([] @ received (incoming (framed st packet)) (Suc k)) ([nl] @ eof st @ [nl])))
       ([] @ received (incoming (framed st packet)) (Suc k)) \<and>
     fst (read_loop (eof st) (framed st packet) 0 []) = 0 + k + 1"
    by (rule read_loop_found) (use h inc in \<open>simp_all del: received.simps\<close>)
  from r inc show "cmd_reads st packet = k + 1"
    by (simp add: cmd_reads_def del: received.simps)
  from r inc show "fst (cmd st packet False) =
            PyStr (take (nat (py_find (received (incoming (clientsocket st)) (Suc k)) ([nl] @ eof st @ [nl])))
                     (received (incoming (clientsocket st)) (Suc k)))"
    by (simp add: cmd_blocking del: received.simps)
next
  fix k
  assume h: "k < max_reads \<and>
        (\<forall>j<k. incoming (clientsocket st) j \<noteq> RecvError \<and>
               py_find (received (incoming (clientsocket st)) (Suc j)) ([nl] @ eof st @ [nl]) < 0) \<and>
        incoming (clientsocket st) k = RecvError"
  have inc: "incoming (framed st packet) = incoming (clientsocket st)"
    by (simp add: framed_def)
  have r: "fst (snd (read_loop (eof st) (framed st packet) 0 [])) =
       [] @ received (incoming (framed st packet)) k \<and>
     fst (read_loop (eof st) (framed st packet) 0 []) = 0 + k + 1"
    by (rule read_loop_timeout) (use h inc in \<open>simp_all del: received.simps\<close>)
  from r inc show "cmd_reads st packet = k + 1"
    by (simp add: cmd_reads_def del: received.simps)
  from r inc show "fst (cmd st packet False) = PyStr (received (incoming (clientsocket st)) k)"
    by (simp add: cmd_blocking del: received.simps)
qed

theorem blocking_cmd_bounded_read_witness:
  "cmd_reads split_st ''fonts'' \<le> max_reads \<and>
   cmd_reads split_st ''fonts'' = 2 \<and> fst (cmd split_st ''fonts'' False) = PyStr ''abc'' \<and>
   py_find (received split_stream 1) ([nl] @ ''.'' @ [nl]) < 0 \<and>
   cmd_reads short_st ''fonts'' = 2 \<and> fst (cmd short_st ''fonts'' False) = PyStr ''ab'' \<and>
   short_stream 1 = RecvError"
proof -
  note t = blocking_cmd_bounded_read[where st = split_st and packet = "''fonts''"]
  note u = blocking_cmd_bounded_read[where st = short_st and packet = "''fonts''"]
  note a = t[THEN conjunct2, THEN conjunct1, THEN spec, of 1]
  note b = u[THEN conjunct2, THEN conjunct2, THEN spec, of 1]
  have 1: "cmd_reads split_st ''fonts'' \<le> max_reads" using t by blast
  have 2: "cmd_reads split_st ''fonts'' = 2 \<and> fst (cmd split_st ''fonts'' False) = PyStr ''abc''"
    using a by (simp add: split_st_def init_api_def split_stream_def max_reads_def le_Suc_eq)
  have 3: "py_find (received split_stream 1) ([nl] @ ''.'' @ [nl]) < 0"
    by (simp add: split_stream_def)
  have 4: "cmd_reads short_st ''fonts'' = 2 \<and> fst (cmd short_st ''fonts'' False) = PyStr ''ab''"
    using b by (simp add: short_st_def init_api_def short_stream_def max_reads_def)
  have 5: "short_stream 1 = RecvError" by (simp add: short_stream_def)
  from 1 2 3 4 5 show ?thesis by blast
qed


section \<open>Gain\<close>

lemma setValue_sent:
  "setValue st key val =
     st\<lparr>clientsocket := (clientsocket st)\<lparr>sent := sent (clientsocket st) @
        [''set '' @ key @ '' '' @ val @ [nl]]\<rparr>\<rparr>"
  by (simp add: setValue_def cmd_nonblocking)

text \<open>
  C1. \<open>setGain v\<close> sends \<open>gain v\<close> and then \<open>set synth.gain\<close> with twice the value, but
  \<open>getGain\<close> afterwards (as at any other time) returns no gain: it raises when the text
  read back is not a number and returns \<open>None\<close> otherwise, for lack of a \<open>return\<close>.
\<close>

theorem getGain_after_setGain_returns_no_value:
  "sent (clientsocket (setGain fl st v)) =
     sent (clientsocket st) @
       [''gain '' @ float_str fl v @ [nl],
        ''set synth.gain '' @ float_str fl (float_twice fl v) @ [nl]] \<and>
   (\<forall>g. fst (getGain fl (setGain fl st v)) \<noteq> Inr (Some g))"
proof
  show "sent (clientsocket (setGain fl st v)) =
     sent (clientsocket st) @
       [''gain '' @ float_str fl v @ [nl],
        ''set synth.gain '' @ float_str fl (float_twice fl v) @ [nl]]"
    by (simp add: setGain_def setValue_sent cmd_nonblocking)
  show "\<forall>g. fst (getGain fl (setGain fl st v)) \<noteq> Inr (Some g)"
    by (auto simp: getGain_def Let_def split: prod.splits sum.splits)
qed

section \<open>Loading a sound font\<close>

lemma loadSoundFont_found:
  assumes "filter py_isdigit (py_split (fst (cmd_read st (''load '' @ [dq] @ f @ [dq])))) \<noteq> []"
  shows "loadSoundFont st f =
     (int (digits_val (last (filter py_isdigit (py_split (fst (cmd_read st (''load '' @ [dq] @ f @ [dq]))))))),
      st\<lparr>fontFilesLoaded := (fontFilesLoaded st)
            (int (digits_val (last (filter py_isdigit (py_split (fst (cmd_read st (''load '' @ [dq] @ f @ [dq]))))))) \<mapsto> f),
         activeSoundFontId := int (digits_val (last (filter py_isdigit (py_split (fst (cmd_read st (''load '' @ [dq] @ f @ [dq]))))))),
         activeSoundFontFile := f,
         clientsocket := clientsocket (snd (cmd_read st (''load '' @ [dq] @ f @ [dq])))\<rparr>)"
proof -
  let ?c = "cmd_read st (''load '' @ [dq] @ f @ [dq])"
  obtain data st1 where c: "?c = (data, st1)" by (cases ?c)
  obtain t where st1: "st1 = st\<lparr>clientsocket := t\<rparr>"
    using cmd_read_frame[of st "''load '' @ [dq] @ f @ [dq]"] c by simp
  from assms c have ne: "filter py_isdigit (py_split data) \<noteq> []" by simp
  have "loadSoundFont st f =
     (int (digits_val (last (filter py_isdigit (py_split data)))),
      st1\<lparr>fontFilesLoaded := (fontFilesLoaded st1)
            (int (digits_val (last (filter py_isdigit (py_split data)))) \<mapsto> f),
         activeSoundFontId := int (digits_val (last (filter py_isdigit (py_split data)))),
         activeSoundFontFile := f\<rparr>)"
    using ne c unfolding loadSoundFont_def
    by (simp add: those_py_int_digits Let_def last_map del: append.simps)
  also have "st1\<lparr>fontFilesLoaded := (fontFilesLoaded st1)
            (int (digits_val (last (filter py_isdigit (py_split data)))) \<mapsto> f),
         activeSoundFontId := int (digits_val (last (filter py_isdigit (py_split data)))),
         activeSoundFontFile := f\<rparr> =
       st\<lparr>fontFilesLoaded := (fontFilesLoaded st)
            (int (digits_val (last (filter py_isdigit (py_split data)))) \<mapsto> f),
         activeSoundFontId := int (digits_val (last (filter py_isdigit (py_split data)))),
         activeSoundFontFile := f,
         clientsocket := clientsocket st1\<rparr>"
    by (simp add: st1)
  finally show ?thesis using c by simp
qed

lemma loadSoundFont_none:
  assumes "filter py_isdigit (py_split (fst (cmd_read st (''load '' @ [dq] @ f @ [dq])))) = []"
  shows "loadSoundFont st f =
     (- 1, st\<lparr>clientsocket := clientsocket (snd (cmd_read st (''load '' @ [dq] @ f @ [dq])))\<rparr>)"
proof -
  let ?c = "cmd_read st (''load '' @ [dq] @ f @ [dq])"
  obtain data st1 where c: "?c = (data, st1)" by (cases ?c)
  obtain t where st1: "st1 = st\<lparr>clientsocket := t\<rparr>"
    using cmd_read_frame[of st "''load '' @ [dq] @ f @ [dq]"] c by simp
  from assms c have "loadSoundFont st f = (- 1, st1)"
    unfolding loadSoundFont_def by (simp del: append.simps)
  with st1 c show ?thesis by simp
qed

text \<open>
  C4. \<open>loadSoundFont\<close> reads the id from the response of the \<open>load\<close> command: when
  the response has a token made of digits only, the value returned is the number written
  by the last such token, it is not negative, and the map of loaded sound fonts gets the
  entry from this id to the file name. When the response has no such token, the value is
  \<open>-1\<close> and the map, the active id and the active file, as every other field of the
  client but the socket, are as before.
\<close>

theorem loadSoundFont_last_digit_token:
  "fst (cmd st (''load '' @ [dq] @ f @ [dq]) False) = PyStr data \<Longrightarrow>
   (filter py_isdigit (py_split data) \<noteq> [] \<longrightarrow>
      py_int (last (filter py_isdigit (py_split data))) = Some (fst (loadSoundFont st f)) \<and>
      0 \<le> fst (loadSoundFont st f) \<and>
      fontFilesLoaded (snd (loadSoundFont st f)) = (fontFilesLoaded st)(fst (loadSoundFont st f) \<mapsto> f)) \<and>
   (filter py_isdigit (py_split data) = [] \<longrightarrow>
      fst (loadSoundFont st f) = - 1 \<and>
      fontFilesLoaded (snd (loadSoundFont st f)) = fontFilesLoaded st \<and>
      activeSoundFontId (snd (loadSoundFont st f)) = activeSoundFontId st \<and>
      activeSoundFontFile (snd (loadSoundFont st f)) = activeSoundFontFile st \<and>
      snd (loadSoundFont st f) = st\<lparr>clientsocket := clientsocket (snd (loadSoundFont st f))\<rparr>)"
proof -
  assume "fst (cmd st (''load '' @ [dq] @ f @ [dq]) False) = PyStr data"
  then have data: "fst (cmd_read st (''load '' @ [dq] @ f @ [dq])) = data"
    by (simp add: cmd_as_cmd_read)
  show ?thesis
  proof (intro conjI impI)
    assume ne: "filter py_isdigit (py_split data) \<noteq> []"
    then have "last (filter py_isdigit (py_split data)) \<in> set (filter py_isdigit (py_split data))"
      by (rule last_in_set)
    then have d: "py_isdigit (last (filter py_isdigit (py_split data)))" by simp
    note l = loadSoundFont_found[of st f, unfolded data, OF ne]
    show "py_int (last (filter py_isdigit (py_split data))) = Some (fst (loadSoundFont st f))"
      by (simp add: l py_isdigit_int[OF d])
    show "0 \<le> fst (loadSoundFont st f)" by (simp add: l)
    show "fontFilesLoaded (snd (loadSoundFont st f)) = (fontFilesLoaded st)(fst (loadSoundFont st f) \<mapsto> f)"
      by (simp add: l)
  next
    assume e: "filter py_isdigit (py_split data) = []"
    note l = loadSoundFont_none[of st f, unfolded data, OF e]
    show "fst (loadSoundFont st f) = - 1" by (simp add: l)
    show "fontFilesLoaded (snd (loadSoundFont st f)) = fontFilesLoaded st" by (simp add: l)
    show "activeSoundFontId (snd (loadSoundFont st f)) = activeSoundFontId st" by (simp add: l)
    show "activeSoundFontFile (snd (loadSoundFont st f)) = activeSoundFontFile st" by (simp add: l)
    show "snd (loadSoundFont st f) = st\<lparr>clientsocket := clientsocket (snd (loadSoundFont st f))\<rparr>"
      by (simp add: l)
  qed
qed

theorem loadSoundFont_last_digit_token_witness:
  "fst (cmd load_st (''load '' @ [dq] @ ''/home/user/sf2/Brass.sf2'' @ [dq]) False) =
     PyStr (''loaded SoundFont has ID 3'' @ [nl]) \<and>
   fst (loadSoundFont load_st ''/home/user/sf2/Brass.sf2'') = 3 \<and>
   fontFilesLoaded (snd (loadSoundFont load_st ''/home/user/sf2/Brass.sf2'')) =
     [3 \<mapsto> ''/home/user/sf2/Brass.sf2''] \<and>
   fst (cmd refused_st (''load '' @ [dq] @ ''/home/user/notes.txt'' @ [dq]) False) =
     PyStr (''fluidsynth: error: Failed to load SoundFont'' @ [nl]) \<and>
   fst (loadSoundFont refused_st ''/home/user/notes.txt'') = - 1 \<and>
   fontFilesLoaded (snd (loadSoundFont refused_st ''/home/user/notes.txt'')) = Map.empty \<and>
   activeSoundFontId (snd (loadSoundFont refused_st ''/home/user/notes.txt'')) = - 1 \<and>
   activeSoundFontFile (snd (loadSoundFont refused_st ''/home/user/notes.txt'')) = []"
proof -
  have a: "fst (cmd load_st (''load '' @ [dq] @ ''/home/user/sf2/Brass.sf2'' @ [dq]) False) =
     PyStr (''loaded SoundFont has ID 3'' @ [nl])"
    by (simp add: cmd_blocking read_loop.simps framed_def sock_recv_def load_st_def init_api_def
        load_stream_def answer_def max_reads_def Let_def)
  have b: "fst (cmd refused_st (''load '' @ [dq] @ ''/home/user/notes.txt'' @ [dq]) False) =
     PyStr (''fluidsynth: error: Failed to load SoundFont'' @ [nl])"
    by (simp add: cmd_blocking read_loop.simps framed_def sock_recv_def refused_st_def init_api_def
        refused_stream_def answer_def max_reads_def Let_def)
  have ta: "filter py_isdigit (py_split (''loaded SoundFont has ID 3'' @ [nl])) = [''3'']"
    by (simp add: py_split_def is_space_def py_isdigit_def is_digit_def)
  have tb: "filter py_isdigit (py_split (''fluidsynth: error: Failed to load SoundFont'' @ [nl])) = []"
    by (simp add: py_split_def is_space_def py_isdigit_def is_digit_def)
  have i3: "py_int ''3'' = Some 3"
    by (simp add: py_int_def py_isdigit_def is_digit_def digits_val_def digit_val_def)
  from loadSoundFont_last_digit_token[OF a] ta i3
  have 1: "fst (loadSoundFont load_st ''/home/user/sf2/Brass.sf2'') = 3 \<and>
   fontFilesLoaded (snd (loadSoundFont load_st ''/home/user/sf2/Brass.sf2'')) =
     [3 \<mapsto> ''/home/user/sf2/Brass.sf2'']"
    by (simp add: load_st_def init_api_def)
  from loadSoundFont_last_digit_token[OF b] tb
  have 2: "fst (loadSoundFont refused_st ''/home/user/notes.txt'') = - 1 \<and>
   fontFilesLoaded (snd (loadSoundFont refused_st ''/home/user/notes.txt'')) = Map.empty \<and>
   activeSoundFontId (snd (loadSoundFont refused_st ''/home/user/notes.txt'')) = - 1 \<and>
   activeSoundFontFile (snd (loadSoundFont refused_st ''/home/user/notes.txt'')) = []"
    by (simp add: refused_st_def init_api_def)
  from a b 1 2 show ?thesis by blast
qed

section \<open>Listing the loaded sound fonts\<close>

lemma getSoundFonts_loop_map_filter:
  "getSoundFonts_loop ls acc = acc @ List.map_filter line_id ls"
proof (induction ls arbitrary: acc)
  case Nil
  then show ?case by (simp add: List.map_filter_simps)
next
  case (Cons l ls)
  then show ?case
    by (cases "py_split l") (auto simp: List.map_filter_simps line_id_def split: option.splits)
qed

text \<open>
  C5. \<open>getSoundFonts\<close> returns, in the order of the lines of the response, the integer
  written by the first token of each line; a line without a token, the header line (first
  token \<open>ID\<close>) and a line whose first token is not an integer give nothing, and the
  lines after them are still read. The listing of two sound fonts gives \<open>[1, 2]\<close>.
\<close>

theorem getSoundFonts_ids:
  "fst (cmd st ''fonts'' False) = PyStr data \<Longrightarrow>
   fst (getSoundFonts st) = List.map_filter line_id (py_splitlines data) \<and>
   (\<forall>line. line_id line =
      (case py_split line of
         [] \<Rightarrow> None
       | p0 # ps \<Rightarrow> if p0 = ''ID'' then None else py_int p0))"
proof -
  assume "fst (cmd st ''fonts'' False) = PyStr data"
  then have data: "fst (cmd_read st ''fonts'') = data"
    by (simp add: cmd_as_cmd_read)
  then have "fst (getSoundFonts st) = List.map_filter line_id (py_splitlines data)"
    by (cases "cmd_read st ''fonts''") (simp add: getSoundFonts_def getSoundFonts_loop_map_filter)
  then show ?thesis by (simp add: line_id_def)
qed

theorem getSoundFonts_ids_witness:
  "fst (cmd fonts_st ''fonts'' False) = PyStr fonts_listing \<and>
   fst (getSoundFonts fonts_st) = [1, 2]"
proof -
  have a: "fst (cmd fonts_st ''fonts'' False) = PyStr fonts_listing"
    by (simp add: cmd_blocking read_loop.simps framed_def sock_recv_def fonts_st_def init_api_def
        fonts_stream_def fonts_listing_def answer_def max_reads_def Let_def)
  have l: "py_splitlines fonts_listing =
     [''ID  Name'', '' 1  /home/user/sf2/Choir.sf2'', '' 2  /home/user/sf2/Brass.sf2'']"
    by (simp add: py_splitlines_def fonts_listing_def)
  have i: "line_id ''ID  Name'' = None" "line_id '' 1  /home/user/sf2/Choir.sf2'' = Some 1"
    "line_id '' 2  /home/user/sf2/Brass.sf2'' = Some 2"
    by (simp_all add: line_id_def py_split_def is_space_def py_int_def py_isdigit_def is_digit_def
        digits_val_def digit_val_def)
  from getSoundFonts_ids[OF a] have "fst (getSoundFonts fonts_st) = [1, 2]"
    by (simp add: l i List.map_filter_simps)
  with a show ?thesis by blast
qed

section \<open>Selecting an instrument\<close>

lemma py_setitem_Some:
  "- int (length xs) \<le> i \<Longrightarrow> i < int (length xs) \<Longrightarrow>
   py_setitem xs i v = Some (xs[nat (if i < 0 then int (length xs) + i else i) := v])"
  by (simp add: py_setitem_def)


lemma py_setitem_length: "py_setitem xs i v = Some ys \<Longrightarrow> length ys = length xs"
  by (auto simp: py_setitem_def split: if_splits)

lemma py_setitem_set: "py_setitem xs i v = Some ys \<Longrightarrow> set ys \<subseteq> insert v (set xs)"
  by (auto simp: py_setitem_def split: if_splits dest: set_update_subset_insert[THEN subsetD])

lemma setInstrument_try_parsed:
  assumes "py_split name = p0 # rest" and "py_split_on CHR ''-'' p0 = bank # prog # others"
  shows "setInstrument_try st name =
     (case py_setitem (fontsInUse st) (selectedChannel st - 1) (activeSoundFontId st) of
        None \<Rightarrow>
          (Inl IndexError,
           st\<lparr>activeInstrument := name,
              clientsocket := (clientsocket st)\<lparr>sent := sent (clientsocket st) @
                [select_packet (selectedChannel st - 1) (activeSoundFontId st) bank prog]\<rparr>\<rparr>)
      | Some fiu \<Rightarrow>
          (case py_setitem (instrumentsInUse st) (selectedChannel st - 1) name of
             None \<Rightarrow>
               (Inl IndexError,
                st\<lparr>fontsInUse := fiu, activeInstrument := name,
                   clientsocket := (clientsocket st)\<lparr>sent := sent (clientsocket st) @
                     [select_packet (selectedChannel st - 1) (activeSoundFontId st) bank prog]\<rparr>\<rparr>)
           | Some iiu \<Rightarrow>
               (Inr (PyBool True),
                st\<lparr>fontsInUse := fiu, instrumentsInUse := iiu,
                   activeChannel := selectedChannel st, activeInstrument := name,
                   clientsocket := (clientsocket st)\<lparr>sent := sent (clientsocket st) @
                     [select_packet (selectedChannel st - 1) (activeSoundFontId st) bank prog]\<rparr>\<rparr>)))"
  using assms
  by (simp add: setInstrument_try_def cmd_nonblocking py_int_str select_packet_def
      getSelectedChannel0_def getSelectedChannel_def Let_def split: option.splits)

lemma setInstrument_try_no_token:
  "py_split name = [] \<Longrightarrow> setInstrument_try st name = (Inl IndexError, st)"
  by (simp add: setInstrument_try_def)

lemma setInstrument_try_no_dash:
  assumes "py_split name = p0 # rest" and "CHR ''-'' \<notin> set p0"
  shows "setInstrument_try st name = (Inl IndexError, st)"
proof -
  from assms(2) obtain t where "py_split_on CHR ''-'' p0 = [t]"
    using py_split_on_short[of "CHR ''-''" p0] by blast
  with assms(1) show ?thesis by (simp add: setInstrument_try_def Let_def)
qed

lemma py_split_on_dash:
  "CHR ''-'' \<in> set p0 \<Longrightarrow> \<exists>bank prog others. py_split_on CHR ''-'' p0 = bank # prog # others"
proof -
  assume d: "CHR ''-'' \<in> set p0"
  have "2 \<le> length (py_split_on CHR ''-'' p0)"
  proof -
    from d have "filter (\<lambda>c. c = CHR ''-'') p0 \<noteq> []" by (auto simp: filter_empty_conv)
    then have "1 \<le> length (filter (\<lambda>c. c = CHR ''-'') p0)" by (cases "filter (\<lambda>c. c = CHR ''-'') p0") auto
    then show ?thesis by (simp add: py_split_on_def py_split_on_acc_length)
  qed
  then show ?thesis
    by (cases "py_split_on CHR ''-'' p0" rule: list.exhaust; cases "tl (py_split_on CHR ''-'' p0)") auto
qed


lemma setInstrument_selected:
  assumes tok: "py_split name = (b @ ''-'' @ p) # rest"
    and b: "CHR ''-'' \<notin> set b" and p: "CHR ''-'' \<notin> set p"
    and act: "0 \<le> activeSoundFontId st"
    and lo: "- 16 \<le> selectedChannel st - 1" and hi: "selectedChannel st - 1 < 16"
    and lf: "length (fontsInUse st) = 16" and li: "length (instrumentsInUse st) = 16"
  shows "setInstrument st name =
     (Inr (PyBool True),
      st\<lparr>fontsInUse := (fontsInUse st)
             [nat (if selectedChannel st - 1 < 0 then 16 + (selectedChannel st - 1)
                   else selectedChannel st - 1) := activeSoundFontId st],
         instrumentsInUse := (instrumentsInUse st)
             [nat (if selectedChannel st - 1 < 0 then 16 + (selectedChannel st - 1)
                   else selectedChannel st - 1) := name],
         activeChannel := selectedChannel st, activeInstrument := name,
         clientsocket := (clientsocket st)\<lparr>sent := sent (clientsocket st) @
           [select_packet (selectedChannel st - 1) (activeSoundFontId st) b p]\<rparr>\<rparr>)"
proof -
  from tok have ne: "name \<noteq> []" by (auto simp: py_split_def)
  have sp: "py_split_on CHR ''-'' (b @ ''-'' @ p) = b # p # []"
    using py_split_on_two[OF b p] by simp
  have f: "py_setitem (fontsInUse st) (selectedChannel st - 1) (activeSoundFontId st) =
      Some ((fontsInUse st)[nat (if selectedChannel st - 1 < 0 then 16 + (selectedChannel st - 1)
                   else selectedChannel st - 1) := activeSoundFontId st])"
    using py_setitem_Some[of "fontsInUse st" "selectedChannel st - 1" "activeSoundFontId st"] lo hi lf
    by simp
  have i: "py_setitem (instrumentsInUse st) (selectedChannel st - 1) name =
      Some ((instrumentsInUse st)[nat (if selectedChannel st - 1 < 0 then 16 + (selectedChannel st - 1)
                   else selectedChannel st - 1) := name])"
    using py_setitem_Some[of "instrumentsInUse st" "selectedChannel st - 1" name] lo hi li
    by simp
  show ?thesis
    using ne act by (simp add: setInstrument_def setInstrument_try_parsed[OF tok sp] f i)
qed

text \<open>
  C2. For a descriptor whose first token is \<open>b-p\<close>, with an active sound font, a selected
  channel from 1 to 16 and the two tables of 16 slots, \<open>setInstrument\<close> sends exactly one
  command, \<open>select\<close> with the selected channel less one, the active sound font id and the
  texts \<open>b\<close> and \<open>p\<close>; it returns \<open>True\<close>, stores the active sound font id and the
  descriptor in the slot of that channel, sets \<open>activeChannel\<close> to \<open>selectedChannel\<close>
  and \<open>activeInstrument\<close> to the descriptor, and leaves the map of loaded sound fonts
  and the cursors \<open>selectedChannel\<close> and \<open>activeSoundFontId\<close> as they are.
\<close>

theorem setInstrument_composes_select:
  assumes "py_split name = (b @ ''-'' @ p) # rest"
    and "CHR ''-'' \<notin> set b" and "CHR ''-'' \<notin> set p"
    and "0 \<le> activeSoundFontId st"
    and "1 \<le> selectedChannel st" and "selectedChannel st \<le> 16"
    and "length (fontsInUse st) = 16" and "length (instrumentsInUse st) = 16"
  shows "fst (setInstrument st name) = Inr (PyBool True) \<and>
     new_packets st (snd (setInstrument st name)) =
       [''select '' @ py_str (selectedChannel st - 1) @ '' '' @ py_str (activeSoundFontId st) @
        '' '' @ b @ '' '' @ p @ [nl]] \<and>
     fontsInUse (snd (setInstrument st name)) =
       (fontsInUse st)[nat (selectedChannel st - 1) := activeSoundFontId st] \<and>
     instrumentsInUse (snd (setInstrument st name)) =
       (instrumentsInUse st)[nat (selectedChannel st - 1) := name] \<and>
     activeChannel (snd (setInstrument st name)) = selectedChannel st \<and>
     activeInstrument (snd (setInstrument st name)) = name \<and>
     fontFilesLoaded (snd (setInstrument st name)) = fontFilesLoaded st \<and>
     selectedChannel (snd (setInstrument st name)) = selectedChannel st \<and>
     activeSoundFontId (snd (setInstrument st name)) = activeSoundFontId st"
proof -
  have lo: "- 16 \<le> selectedChannel st - 1" and hi: "selectedChannel st - 1 < 16"
    and nn: "\<not> selectedChannel st - 1 < 0"
    using assms(5,6) by simp_all
  note s = setInstrument_selected[OF assms(1-4) lo hi assms(7,8)]
  show ?thesis using nn by (simp add: s new_packets_def select_packet_def)
qed

theorem setInstrument_composes_select_witness:
  "py_split ''000-012 Trumpet'' = (''000'' @ ''-'' @ ''012'') # [''Trumpet''] \<and>
   activeSoundFontId trumpet_st = 4 \<and> selectedChannel trumpet_st = 3 \<and>
   fst (setInstrument trumpet_st ''000-012 Trumpet'') = Inr (PyBool True) \<and>
   new_packets trumpet_st (snd (setInstrument trumpet_st ''000-012 Trumpet'')) =
     [''select 2 4 000 012'' @ [nl]] \<and>
   fontsInUse (snd (setInstrument trumpet_st ''000-012 Trumpet'')) =
     [- 1, - 1, 4, - 1, - 1, - 1, - 1, - 1, - 1, - 1, - 1, - 1, - 1, - 1, - 1, - 1] \<and>
   instrumentsInUse (snd (setInstrument trumpet_st ''000-012 Trumpet'')) ! 2 = ''000-012 Trumpet'' \<and>
   activeChannel (snd (setInstrument trumpet_st ''000-012 Trumpet'')) = 3"
proof -
  have tok: "py_split ''000-012 Trumpet'' = (''000'' @ ''-'' @ ''012'') # [''Trumpet'']"
    by (simp add: py_split_def is_space_def)
  have s2: "py_str 2 = ''2''" and s4: "py_str 4 = ''4''"
    by (simp_all add: py_str_def str_nat.simps digit_char_def)
  have r16: "replicate 16 (- 1 :: int) =
     [- 1, - 1, - 1, - 1, - 1, - 1, - 1, - 1, - 1, - 1, - 1, - 1, - 1, - 1, - 1, - 1]"
    by (simp add: numeral_eq_Suc)
  have r16s: "replicate 16 ([] :: string) = [[], [], [], [], [], [], [], [], [], [], [], [], [], [], [], []]"
    by (simp add: numeral_eq_Suc)
  have t: "fst (setInstrument trumpet_st ''000-012 Trumpet'') = Inr (PyBool True) \<and>
     new_packets trumpet_st (snd (setInstrument trumpet_st ''000-012 Trumpet'')) =
       [''select '' @ py_str (selectedChannel trumpet_st - 1) @ '' '' @
        py_str (activeSoundFontId trumpet_st) @ '' '' @ ''000'' @ '' '' @ ''012'' @ [nl]] \<and>
     fontsInUse (snd (setInstrument trumpet_st ''000-012 Trumpet'')) =
       (fontsInUse trumpet_st)[nat (selectedChannel trumpet_st - 1) := activeSoundFontId trumpet_st] \<and>
     instrumentsInUse (snd (setInstrument trumpet_st ''000-012 Trumpet'')) =
       (instrumentsInUse trumpet_st)[nat (selectedChannel trumpet_st - 1) := ''000-012 Trumpet''] \<and>
     activeChannel (snd (setInstrument trumpet_st ''000-012 Trumpet'')) = selectedChannel trumpet_st \<and>
     activeInstrument (snd (setInstrument trumpet_st ''000-012 Trumpet'')) = ''000-012 Trumpet'' \<and>
     fontFilesLoaded (snd (setInstrument trumpet_st ''000-012 Trumpet'')) = fontFilesLoaded trumpet_st \<and>
     selectedChannel (snd (setInstrument trumpet_st ''000-012 Trumpet'')) = selectedChannel trumpet_st \<and>
     activeSoundFontId (snd (setInstrument trumpet_st ''000-012 Trumpet'')) = activeSoundFontId trumpet_st"
    by (rule setInstrument_composes_select[OF tok])
       (simp_all add: trumpet_st_def init_api_def)
  have v: "activeSoundFontId trumpet_st = 4" "selectedChannel trumpet_st = 3"
    "fontsInUse trumpet_st = replicate 16 (- 1)" "instrumentsInUse trumpet_st = replicate 16 []"
    by (simp_all add: trumpet_st_def init_api_def)
  from t show ?thesis
    unfolding v r16 r16s using tok by (simp add: s2 s4)
qed


text \<open>
  C9. \<open>setSelectedChannel\<close> stores any integer. With channel 0 selected, an active
  sound font, the tables of 16 slots and a descriptor whose first token is \<open>b-p\<close>,
  \<open>setInstrument\<close> returns \<open>True\<close>, sends \<open>select -1\<close> with the active sound font id,
  \<open>b\<close> and \<open>p\<close>, and writes the id and the descriptor into the slot of index 15, the
  last one, of the two tables.
\<close>

theorem setInstrument_channel_zero_last_slot:
  "(\<forall>c. selectedChannel (setSelectedChannel st c) = c) \<and>
   (py_split name = (b @ ''-'' @ p) # rest \<and> CHR ''-'' \<notin> set b \<and> CHR ''-'' \<notin> set p \<and>
    0 \<le> activeSoundFontId st \<and>
    length (fontsInUse st) = 16 \<and> length (instrumentsInUse st) = 16 \<longrightarrow>
      fst (setInstrument (setSelectedChannel st 0) name) = Inr (PyBool True) \<and>
      new_packets st (snd (setInstrument (setSelectedChannel st 0) name)) =
        [''select -1 '' @ py_str (activeSoundFontId st) @ '' '' @ b @ '' '' @ p @ [nl]] \<and>
      fontsInUse (snd (setInstrument (setSelectedChannel st 0) name)) =
        (fontsInUse st)[15 := activeSoundFontId st] \<and>
      instrumentsInUse (snd (setInstrument (setSelectedChannel st 0) name)) =
        (instrumentsInUse st)[15 := name] \<and>
      activeChannel (snd (setInstrument (setSelectedChannel st 0) name)) = 0)"
proof (intro conjI impI allI)
  fix c show "selectedChannel (setSelectedChannel st c) = c"
    by (simp add: setSelectedChannel_def)
next
  assume h: "py_split name = (b @ ''-'' @ p) # rest \<and> CHR ''-'' \<notin> set b \<and> CHR ''-'' \<notin> set p \<and>
    0 \<le> activeSoundFontId st \<and>
    length (fontsInUse st) = 16 \<and> length (instrumentsInUse st) = 16"
  let ?st = "setSelectedChannel st 0"
  have m1: "py_str (- 1) = ''-1''"
    by (simp add: py_str_def str_nat.simps digit_char_def)
  have s: "setInstrument ?st name =
     (Inr (PyBool True),
      ?st\<lparr>fontsInUse := (fontsInUse ?st)
             [nat (if selectedChannel ?st - 1 < 0 then 16 + (selectedChannel ?st - 1)
                   else selectedChannel ?st - 1) := activeSoundFontId ?st],
         instrumentsInUse := (instrumentsInUse ?st)
             [nat (if selectedChannel ?st - 1 < 0 then 16 + (selectedChannel ?st - 1)
                   else selectedChannel ?st - 1) := name],
         activeChannel := selectedChannel ?st, activeInstrument := name,
         clientsocket := (clientsocket ?st)\<lparr>sent := sent (clientsocket ?st) @
           [select_packet (selectedChannel ?st - 1) (activeSoundFontId ?st) b p]\<rparr>\<rparr>)"
    by (rule setInstrument_selected) (use h in \<open>simp_all add: setSelectedChannel_def\<close>)
  show "fst (setInstrument ?st name) = Inr (PyBool True)" by (simp add: s)
  show "new_packets st (snd (setInstrument ?st name)) =
        [''select -1 '' @ py_str (activeSoundFontId st) @ '' '' @ b @ '' '' @ p @ [nl]]"
    unfolding s by (simp add: new_packets_def select_packet_def setSelectedChannel_def m1)
  show "fontsInUse (snd (setInstrument ?st name)) = (fontsInUse st)[15 := activeSoundFontId st]"
    unfolding s by (simp add: setSelectedChannel_def)
  show "instrumentsInUse (snd (setInstrument ?st name)) = (instrumentsInUse st)[15 := name]"
    unfolding s by (simp add: setSelectedChannel_def)
  show "activeChannel (snd (setInstrument ?st name)) = 0"
    unfolding s by (simp add: setSelectedChannel_def)
qed

theorem setInstrument_channel_zero_last_slot_witness:
  "selectedChannel (setSelectedChannel trumpet_st 0) = 0 \<and>
   py_split ''000-012 Trumpet'' = (''000'' @ ''-'' @ ''012'') # [''Trumpet''] \<and>
   fst (setInstrument (setSelectedChannel trumpet_st 0) ''000-012 Trumpet'') = Inr (PyBool True) \<and>
   new_packets trumpet_st (snd (setInstrument (setSelectedChannel trumpet_st 0) ''000-012 Trumpet'')) =
     [''select -1 4 000 012'' @ [nl]] \<and>
   fontsInUse (snd (setInstrument (setSelectedChannel trumpet_st 0) ''000-012 Trumpet'')) =
     [- 1, - 1, - 1, - 1, - 1, - 1, - 1, - 1, - 1, - 1, - 1, - 1, - 1, - 1, - 1, 4] \<and>
   instrumentsInUse (snd (setInstrument (setSelectedChannel trumpet_st 0) ''000-012 Trumpet'')) ! 15 =
     ''000-012 Trumpet''"
proof -
  have tok: "py_split ''000-012 Trumpet'' = (''000'' @ ''-'' @ ''012'') # [''Trumpet'']"
    by (simp add: py_split_def is_space_def)
  have s4: "py_str 4 = ''4''"
    by (simp add: py_str_def str_nat.simps digit_char_def)
  have r16: "replicate 16 (- 1 :: int) =
     [- 1, - 1, - 1, - 1, - 1, - 1, - 1, - 1, - 1, - 1, - 1, - 1, - 1, - 1, - 1, - 1]"
    by (simp add: numeral_eq_Suc)
  have r16s: "replicate 16 ([] :: string) = [[], [], [], [], [], [], [], [], [], [], [], [], [], [], [], []]"
    by (simp add: numeral_eq_Suc)
  have v: "activeSoundFontId trumpet_st = 4"
    "fontsInUse trumpet_st = replicate 16 (- 1)" "instrumentsInUse trumpet_st = replicate 16 []"
    by (simp_all add: trumpet_st_def init_api_def)
  note t = setInstrument_channel_zero_last_slot[where st = trumpet_st and name = "''000-012 Trumpet''"
      and b = "''000''" and p = "''012''" and rest = "[''Trumpet'']"]
  from t have a: "selectedChannel (setSelectedChannel trumpet_st 0) = 0" by blast
  from t[THEN conjunct2] tok have
    "fst (setInstrument (setSelectedChannel trumpet_st 0) ''000-012 Trumpet'') = Inr (PyBool True) \<and>
     new_packets trumpet_st (snd (setInstrument (setSelectedChannel trumpet_st 0) ''000-012 Trumpet'')) =
       [''select -1 '' @ py_str (activeSoundFontId trumpet_st) @ '' '' @ ''000'' @ '' '' @ ''012'' @ [nl]] \<and>
     fontsInUse (snd (setInstrument (setSelectedChannel trumpet_st 0) ''000-012 Trumpet'')) =
       (fontsInUse trumpet_st)[15 := activeSoundFontId trumpet_st] \<and>
     instrumentsInUse (snd (setInstrument (setSelectedChannel trumpet_st 0) ''000-012 Trumpet'')) =
       (instrumentsInUse trumpet_st)[15 := ''000-012 Trumpet'']"
    by (simp add: v)
  then show ?thesis
    unfolding v r16 r16s using tok a by (simp add: s4)
qed







section \<open>The active sound font after a load\<close>

lemma setInstrument_sent:
  assumes tok: "py_split name = (b @ ''-'' @ p) # rest"
    and b: "CHR ''-'' \<notin> set b" and p: "CHR ''-'' \<notin> set p"
    and act: "0 \<le> activeSoundFontId st"
  shows "new_packets st (snd (setInstrument st name)) =
     [select_packet (selectedChannel st - 1) (activeSoundFontId st) b p]"
proof -
  from tok have ne: "name \<noteq> []" by (auto simp: py_split_def)
  have sp: "py_split_on CHR ''-'' (b @ ''-'' @ p) = b # p # []"
    using py_split_on_two[OF b p] by simp
  show ?thesis
    using ne act
    by (simp add: setInstrument_def setInstrument_try_parsed[OF tok sp] new_packets_def
        split: option.splits)
qed

text \<open>
  C10. A \<open>loadSoundFont\<close> that succeeds (its value is not \<open>-1\<close>) sets the active sound
  font id to the id returned and the active file to the file loaded, and enters the id in
  the map; the two channel tables, the selected and the active channel and the active
  instrument are as before. The next \<open>setInstrument\<close> therefore selects from the new
  sound font: its \<open>select\<close> command carries the id just returned.
\<close>

theorem loadSoundFont_moves_active_cursor:
  "fst (loadSoundFont st f) \<noteq> - 1 \<longrightarrow>
     activeSoundFontId (snd (loadSoundFont st f)) = fst (loadSoundFont st f) \<and>
     activeSoundFontFile (snd (loadSoundFont st f)) = f \<and>
     fontFilesLoaded (snd (loadSoundFont st f)) = (fontFilesLoaded st)(fst (loadSoundFont st f) \<mapsto> f) \<and>
     fontsInUse (snd (loadSoundFont st f)) = fontsInUse st \<and>
     instrumentsInUse (snd (loadSoundFont st f)) = instrumentsInUse st \<and>
     selectedChannel (snd (loadSoundFont st f)) = selectedChannel st \<and>
     activeChannel (snd (loadSoundFont st f)) = activeChannel st \<and>
     activeInstrument (snd (loadSoundFont st f)) = activeInstrument st \<and>
     (\<forall>name b p rest.
        py_split name = (b @ ''-'' @ p) # rest \<and> CHR ''-'' \<notin> set b \<and> CHR ''-'' \<notin> set p \<longrightarrow>
        new_packets (snd (loadSoundFont st f)) (snd (setInstrument (snd (loadSoundFont st f)) name)) =
          [''select '' @ py_str (selectedChannel st - 1) @ '' '' @ py_str (fst (loadSoundFont st f)) @
           '' '' @ b @ '' '' @ p @ [nl]])"
proof
  assume ok: "fst (loadSoundFont st f) \<noteq> - 1"
  let ?toks = "filter py_isdigit (py_split (fst (cmd_read st (''load '' @ [dq] @ f @ [dq]))))"
  have ne: "?toks \<noteq> []"
  proof
    assume "?toks = []"
    from loadSoundFont_none[OF this] ok show False by simp
  qed
  note l = loadSoundFont_found[OF ne]
  have act: "0 \<le> activeSoundFontId (snd (loadSoundFont st f))" by (simp add: l)
  have sel: "\<forall>name b p rest.
        py_split name = (b @ ''-'' @ p) # rest \<and> CHR ''-'' \<notin> set b \<and> CHR ''-'' \<notin> set p \<longrightarrow>
        new_packets (snd (loadSoundFont st f)) (snd (setInstrument (snd (loadSoundFont st f)) name)) =
          [''select '' @ py_str (selectedChannel st - 1) @ '' '' @ py_str (fst (loadSoundFont st f)) @
           '' '' @ b @ '' '' @ p @ [nl]]"
  proof (intro allI impI)
    fix name b p rest
    assume h: "py_split name = (b @ ''-'' @ p) # rest \<and> CHR ''-'' \<notin> set b \<and> CHR ''-'' \<notin> set p"
    then have "new_packets (snd (loadSoundFont st f)) (snd (setInstrument (snd (loadSoundFont st f)) name)) =
       [select_packet (selectedChannel (snd (loadSoundFont st f)) - 1)
          (activeSoundFontId (snd (loadSoundFont st f))) b p]"
      using setInstrument_sent[OF _ _ _ act] by blast
    then show "new_packets (snd (loadSoundFont st f)) (snd (setInstrument (snd (loadSoundFont st f)) name)) =
          [''select '' @ py_str (selectedChannel st - 1) @ '' '' @ py_str (fst (loadSoundFont st f)) @
           '' '' @ b @ '' '' @ p @ [nl]]"
      by (simp add: l select_packet_def)
  qed
  show "activeSoundFontId (snd (loadSoundFont st f)) = fst (loadSoundFont st f) \<and>
     activeSoundFontFile (snd (loadSoundFont st f)) = f \<and>
     fontFilesLoaded (snd (loadSoundFont st f)) = (fontFilesLoaded st)(fst (loadSoundFont st f) \<mapsto> f) \<and>
     fontsInUse (snd (loadSoundFont st f)) = fontsInUse st \<and>
     instrumentsInUse (snd (loadSoundFont st f)) = instrumentsInUse st \<and>
     selectedChannel (snd (loadSoundFont st f)) = selectedChannel st \<and>
     activeChannel (snd (loadSoundFont st f)) = activeChannel st \<and>
     activeInstrument (snd (loadSoundFont st f)) = activeInstrument st \<and>
     (\<forall>name b p rest.
        py_split name = (b @ ''-'' @ p) # rest \<and> CHR ''-'' \<notin> set b \<and> CHR ''-'' \<notin> set p \<longrightarrow>
        new_packets (snd (loadSoundFont st f)) (snd (setInstrument (snd (loadSoundFont st f)) name)) =
          [''select '' @ py_str (selectedChannel st - 1) @ '' '' @ py_str (fst (loadSoundFont st f)) @
           '' '' @ b @ '' '' @ p @ [nl]])"
    using sel by (simp add: l)
qed


lemma load_st_loaded:
  "fst (loadSoundFont load_st ''/home/user/sf2/Brass.sf2'') = 3"
proof -
  have r: "fst (cmd_read load_st (''load '' @ [dq] @ ''/home/user/sf2/Brass.sf2'' @ [dq])) =
     ''loaded SoundFont has ID 3'' @ [nl]"
    by (simp add: cmd_read_blocking read_loop.simps framed_def sock_recv_def load_st_def init_api_def
        load_stream_def answer_def max_reads_def Let_def)
  have t: "filter py_isdigit (py_split (''loaded SoundFont has ID 3'' @ [nl])) = [''3'']"
    by (simp add: py_split_def is_space_def py_isdigit_def is_digit_def)
  have "filter py_isdigit (py_split (fst (cmd_read load_st
      (''load '' @ [dq] @ ''/home/user/sf2/Brass.sf2'' @ [dq])))) \<noteq> []"
    unfolding r t by simp
  from loadSoundFont_found[OF this] show ?thesis
    unfolding r t by (simp add: digits_val_def digit_val_def)
qed

theorem loadSoundFont_moves_active_cursor_witness:
  "fst (loadSoundFont load_st ''/home/user/sf2/Brass.sf2'') = 3 \<and>
   activeSoundFontId load_st = - 1 \<and>
   activeSoundFontId (snd (loadSoundFont load_st ''/home/user/sf2/Brass.sf2'')) = 3 \<and>
   activeSoundFontFile (snd (loadSoundFont load_st ''/home/user/sf2/Brass.sf2'')) =
     ''/home/user/sf2/Brass.sf2'' \<and>
   fontsInUse (snd (loadSoundFont load_st ''/home/user/sf2/Brass.sf2'')) = replicate 16 (- 1) \<and>
   selectedChannel (snd (loadSoundFont load_st ''/home/user/sf2/Brass.sf2'')) = 1 \<and>
   activeChannel (snd (loadSoundFont load_st ''/home/user/sf2/Brass.sf2'')) = 1 \<and>
   activeInstrument (snd (loadSoundFont load_st ''/home/user/sf2/Brass.sf2'')) = [] \<and>
   new_packets (snd (loadSoundFont load_st ''/home/user/sf2/Brass.sf2''))
     (snd (setInstrument (snd (loadSoundFont load_st ''/home/user/sf2/Brass.sf2'')) ''000-012 Trumpet'')) =
     [''select 0 3 000 012'' @ [nl]]"
proof -
  note r = load_st_loaded
  have tok: "py_split ''000-012 Trumpet'' = (''000'' @ ''-'' @ ''012'') # [''Trumpet'']"
    by (simp add: py_split_def is_space_def)
  have s: "py_str 0 = ''0''" "py_str 3 = ''3''"
    by (simp_all add: py_str_def str_nat.simps digit_char_def)
  have v: "activeSoundFontId load_st = - 1" "fontsInUse load_st = replicate 16 (- 1)"
    "selectedChannel load_st = 1" "activeChannel load_st = 1" "activeInstrument load_st = []"
    by (simp_all add: load_st_def init_api_def)
  note t = loadSoundFont_moves_active_cursor[where st = load_st and f = "''/home/user/sf2/Brass.sf2''",
      unfolded r, simplified, unfolded v]
  from t have 1:
    "activeSoundFontId (snd (loadSoundFont load_st ''/home/user/sf2/Brass.sf2'')) = 3 \<and>
     activeSoundFontFile (snd (loadSoundFont load_st ''/home/user/sf2/Brass.sf2'')) =
       ''/home/user/sf2/Brass.sf2'' \<and>
     fontsInUse (snd (loadSoundFont load_st ''/home/user/sf2/Brass.sf2'')) = replicate 16 (- 1) \<and>
     selectedChannel (snd (loadSoundFont load_st ''/home/user/sf2/Brass.sf2'')) = 1 \<and>
     activeChannel (snd (loadSoundFont load_st ''/home/user/sf2/Brass.sf2'')) = 1 \<and>
     activeInstrument (snd (loadSoundFont load_st ''/home/user/sf2/Brass.sf2'')) = []"
    by simp
  from t have "\<forall>name b p rest.
        py_split name = (b @ ''-'' @ p) # rest \<and> CHR ''-'' \<notin> set b \<and> CHR ''-'' \<notin> set p \<longrightarrow>
        new_packets (snd (loadSoundFont load_st ''/home/user/sf2/Brass.sf2''))
          (snd (setInstrument (snd (loadSoundFont load_st ''/home/user/sf2/Brass.sf2'')) name)) =
          [''select '' @ py_str (1 - 1) @ '' '' @ py_str 3 @ '' '' @ b @ '' '' @ p @ [nl]]"
    by simp
  from this[rule_format, of "''000-012 Trumpet''" "''000''" "''012''" "[''Trumpet'']"] tok
  have 2: "new_packets (snd (loadSoundFont load_st ''/home/user/sf2/Brass.sf2''))
     (snd (setInstrument (snd (loadSoundFont load_st ''/home/user/sf2/Brass.sf2'')) ''000-012 Trumpet'')) =
     [''select 0 3 000 012'' @ [nl]]"
    by (simp add: s)
  from r v(1) 1 2 show ?thesis by blast
qed

section \<open>Unloading\<close>

lemma unloadSoundFonts_loop_effect:
  "\<exists>ks. set ks \<subseteq> set ids - set (fontsInUse st) \<and>
     unloadSoundFonts_loop st ids =
       st\<lparr>fontFilesLoaded := (\<lambda>k. if k \<in> set ks then None else fontFilesLoaded st k),
          clientsocket := (clientsocket st)\<lparr>sent := sent (clientsocket st) @ map unload_packet ks\<rparr>\<rparr>"
proof (induction ids arbitrary: st)
  case Nil
  have "set [] \<subseteq> set [] - set (fontsInUse st) \<and>
     unloadSoundFonts_loop st [] =
       st\<lparr>fontFilesLoaded := (\<lambda>k. if k \<in> set ([] :: int list) then None else fontFilesLoaded st k),
          clientsocket := (clientsocket st)\<lparr>sent := sent (clientsocket st) @ map unload_packet []\<rparr>\<rparr>"
    by simp
  then show ?case by blast
next
  case (Cons ident ids)
  show ?case
  proof (cases "ident \<in> set (fontsInUse st)")
    case True
    from Cons.IH[of st] obtain ks where
      ks: "set ks \<subseteq> set ids - set (fontsInUse st)" and
      eq: "unloadSoundFonts_loop st ids =
       st\<lparr>fontFilesLoaded := (\<lambda>k. if k \<in> set ks then None else fontFilesLoaded st k),
          clientsocket := (clientsocket st)\<lparr>sent := sent (clientsocket st) @ map unload_packet ks\<rparr>\<rparr>"
      by blast
    from ks have "set ks \<subseteq> set (ident # ids) - set (fontsInUse st)" by auto
    moreover from True eq have "unloadSoundFonts_loop st (ident # ids) =
       st\<lparr>fontFilesLoaded := (\<lambda>k. if k \<in> set ks then None else fontFilesLoaded st k),
          clientsocket := (clientsocket st)\<lparr>sent := sent (clientsocket st) @ map unload_packet ks\<rparr>\<rparr>"
      by simp
    ultimately show ?thesis by blast
  next
    case False
    let ?st1 = "st\<lparr>clientsocket := (clientsocket st)\<lparr>sent := sent (clientsocket st) @ [unload_packet ident]\<rparr>\<rparr>"
    have c: "cmd st (''unload '' @ py_str ident) True = (PyBool True, ?st1)"
      by (simp add: cmd_nonblocking unload_packet_def)
    show ?thesis
    proof (cases "fontFilesLoaded st ident")
      case None
      have m: "(\<lambda>k. if k \<in> set [ident] then None else fontFilesLoaded st k) = fontFilesLoaded st"
        using None by (auto simp: fun_eq_iff)
      have "unloadSoundFonts_loop st (ident # ids) = ?st1"
        using False None c by simp
      also have "?st1 = st\<lparr>fontFilesLoaded := (\<lambda>k. if k \<in> set [ident] then None else fontFilesLoaded st k),
          clientsocket := (clientsocket st)\<lparr>sent := sent (clientsocket st) @ map unload_packet [ident]\<rparr>\<rparr>"
        unfolding m by simp
      finally have "unloadSoundFonts_loop st (ident # ids) =
          st\<lparr>fontFilesLoaded := (\<lambda>k. if k \<in> set [ident] then None else fontFilesLoaded st k),
          clientsocket := (clientsocket st)\<lparr>sent := sent (clientsocket st) @ map unload_packet [ident]\<rparr>\<rparr>" .
      moreover have "set [ident] \<subseteq> set (ident # ids) - set (fontsInUse st)"
        using False by simp
      ultimately show ?thesis by blast
    next
      case (Some f)
      let ?st2 = "?st1\<lparr>fontFilesLoaded := (fontFilesLoaded ?st1)(ident := None)\<rparr>"
      from Cons.IH[of ?st2] obtain ks where
        ks: "set ks \<subseteq> set ids - set (fontsInUse ?st2)" and
        eq: "unloadSoundFonts_loop ?st2 ids =
         ?st2\<lparr>fontFilesLoaded := (\<lambda>k. if k \<in> set ks then None else fontFilesLoaded ?st2 k),
            clientsocket := (clientsocket ?st2)\<lparr>sent := sent (clientsocket ?st2) @ map unload_packet ks\<rparr>\<rparr>"
        by blast
      have m: "(\<lambda>k. if k \<in> set ks then None else fontFilesLoaded ?st2 k) =
               (\<lambda>k. if k \<in> set (ident # ks) then None else fontFilesLoaded st k)"
        by (auto simp: fun_eq_iff)
      have "unloadSoundFonts_loop st (ident # ids) = unloadSoundFonts_loop ?st2 ids"
        using False Some c by simp
      also have "\<dots> = st\<lparr>fontFilesLoaded := (\<lambda>k. if k \<in> set (ident # ks) then None else fontFilesLoaded st k),
          clientsocket := (clientsocket st)\<lparr>sent := sent (clientsocket st) @ map unload_packet (ident # ks)\<rparr>\<rparr>"
        unfolding eq m by simp
      finally have "unloadSoundFonts_loop st (ident # ids) =
          st\<lparr>fontFilesLoaded := (\<lambda>k. if k \<in> set (ident # ks) then None else fontFilesLoaded st k),
          clientsocket := (clientsocket st)\<lparr>sent := sent (clientsocket st) @ map unload_packet (ident # ks)\<rparr>\<rparr>" .
      moreover have "set (ident # ks) \<subseteq> set (ident # ids) - set (fontsInUse st)"
        using ks False by auto
      ultimately show ?thesis by blast
    qed
  qed
qed

lemma getSoundFonts_state:
  "snd (getSoundFonts st) =
     st\<lparr>clientsocket := clientsocket (snd (cmd_read st ''fonts''))\<rparr>"
  using cmd_read_frame[of st "''fonts''"]
  by (cases "cmd_read st ''fonts''") (simp add: getSoundFonts_def)

lemma unloadSoundFonts_effect:
  "\<exists>ks. set ks \<subseteq> set (fst (getSoundFonts st)) - set (fontsInUse st) \<and>
     fontsInUse (unloadSoundFonts st) = fontsInUse st \<and>
     fontFilesLoaded (unloadSoundFonts st) = (\<lambda>k. if k \<in> set ks then None else fontFilesLoaded st k) \<and>
     new_packets st (unloadSoundFonts st) =
       [''fonts'' @ [nl], ''echo '' @ [dq, dq, nl], ''echo '' @ eof st @ [nl]] @ map unload_packet ks"
proof -
  obtain ids st1 where g: "getSoundFonts st = (ids, st1)" by (cases "getSoundFonts st")
  have st1: "st1 = st\<lparr>clientsocket := clientsocket (snd (cmd_read st ''fonts''))\<rparr>"
    using getSoundFonts_state[of st] g by simp
  have f1: "fontsInUse st1 = fontsInUse st" "fontFilesLoaded st1 = fontFilesLoaded st"
    "sent (clientsocket st1) =
       sent (clientsocket st) @ [''fonts'' @ [nl], ''echo '' @ [dq, dq, nl], ''echo '' @ eof st @ [nl]]"
    by (simp_all add: st1 cmd_read_sent)
  from unloadSoundFonts_loop_effect[of ids st1] obtain ks where
    ks: "set ks \<subseteq> set ids - set (fontsInUse st1)" and
    eq: "unloadSoundFonts_loop st1 ids =
       st1\<lparr>fontFilesLoaded := (\<lambda>k. if k \<in> set ks then None else fontFilesLoaded st1 k),
          clientsocket := (clientsocket st1)\<lparr>sent := sent (clientsocket st1) @ map unload_packet ks\<rparr>\<rparr>"
    by blast
  have u: "unloadSoundFonts st = unloadSoundFonts_loop st1 ids"
    by (simp add: unloadSoundFonts_def g)
  have "set ks \<subseteq> set (fst (getSoundFonts st)) - set (fontsInUse st)"
    using ks g f1 by simp
  moreover have "fontsInUse (unloadSoundFonts st) = fontsInUse st"
    by (simp add: u eq f1)
  moreover have "fontFilesLoaded (unloadSoundFonts st) =
      (\<lambda>k. if k \<in> set ks then None else fontFilesLoaded st k)"
    by (simp add: u eq f1 cong: if_cong)
  moreover have "new_packets st (unloadSoundFonts st) =
       [''fonts'' @ [nl], ''echo '' @ [dq, dq, nl], ''echo '' @ eof st @ [nl]] @ map unload_packet ks"
    by (simp add: u eq f1 new_packets_def)
  ultimately show ?thesis by blast
qed

lemma unload_packet_inj: "unload_packet a = unload_packet b \<Longrightarrow> a = b"
  by (auto simp: unload_packet_def dest: py_str_inj)

lemma unload_packet_not_framing:
  "unload_packet k \<notin> set [''fonts'' @ [nl], ''echo '' @ [dq, dq, nl], ''echo '' @ e @ [nl]]"
  by (simp add: unload_packet_def)


text \<open>
  C3. \<open>unloadSoundFonts\<close> sends, after the \<open>fonts\<close> command and its two echoes, only
  \<open>unload\<close> commands, each for an id that the engine has listed and that is in no channel
  slot. For an id in a channel slot no \<open>unload\<close> command is sent and the entry of the map
  of loaded sound fonts stays as it is. An entry of the map that changes is removed, and
  then its id was listed, is in no channel slot, and its \<open>unload\<close> command was sent. The
  channel table itself is not changed.
\<close>

theorem unloadSoundFonts_spares_fonts_in_use:
  "(\<forall>b \<in> set (fontsInUse st).
      unload_packet b \<notin> set (new_packets st (unloadSoundFonts st)) \<and>
      fontFilesLoaded (unloadSoundFonts st) b = fontFilesLoaded st b) \<and>
   (\<forall>k. fontFilesLoaded (unloadSoundFonts st) k \<noteq> fontFilesLoaded st k \<longrightarrow>
      fontFilesLoaded (unloadSoundFonts st) k = None \<and>
      k \<in> set (fst (getSoundFonts st)) \<and> k \<notin> set (fontsInUse st) \<and>
      unload_packet k \<in> set (new_packets st (unloadSoundFonts st))) \<and>
   (\<exists>ks. set ks \<subseteq> set (fst (getSoundFonts st)) - set (fontsInUse st) \<and>
      new_packets st (unloadSoundFonts st) =
        [''fonts'' @ [nl], ''echo '' @ [dq, dq, nl], ''echo '' @ eof st @ [nl]] @
        map unload_packet ks) \<and>
   fontsInUse (unloadSoundFonts st) = fontsInUse st"
proof -
  from unloadSoundFonts_effect[of st] obtain ks where
    ks: "set ks \<subseteq> set (fst (getSoundFonts st)) - set (fontsInUse st)" and
    fiu: "fontsInUse (unloadSoundFonts st) = fontsInUse st" and
    m: "fontFilesLoaded (unloadSoundFonts st) = (\<lambda>k. if k \<in> set ks then None else fontFilesLoaded st k)" and
    np: "new_packets st (unloadSoundFonts st) =
       [''fonts'' @ [nl], ''echo '' @ [dq, dq, nl], ''echo '' @ eof st @ [nl]] @ map unload_packet ks"
    by blast
  have a: "\<forall>b \<in> set (fontsInUse st).
      unload_packet b \<notin> set (new_packets st (unloadSoundFonts st)) \<and>
      fontFilesLoaded (unloadSoundFonts st) b = fontFilesLoaded st b"
  proof
    fix b assume b: "b \<in> set (fontsInUse st)"
    with ks have nk: "b \<notin> set ks" by auto
    have "unload_packet b \<notin> set (map unload_packet ks)"
      using nk by (auto dest: unload_packet_inj)
    with unload_packet_not_framing[of b "eof st"]
    have "unload_packet b \<notin> set (new_packets st (unloadSoundFonts st))"
      unfolding np by (simp del: append.simps)
    moreover have "fontFilesLoaded (unloadSoundFonts st) b = fontFilesLoaded st b"
      using nk by (simp add: m)
    ultimately show "unload_packet b \<notin> set (new_packets st (unloadSoundFonts st)) \<and>
      fontFilesLoaded (unloadSoundFonts st) b = fontFilesLoaded st b" by blast
  qed
  have b: "\<forall>k. fontFilesLoaded (unloadSoundFonts st) k \<noteq> fontFilesLoaded st k \<longrightarrow>
      fontFilesLoaded (unloadSoundFonts st) k = None \<and>
      k \<in> set (fst (getSoundFonts st)) \<and> k \<notin> set (fontsInUse st) \<and>
      unload_packet k \<in> set (new_packets st (unloadSoundFonts st))"
  proof (intro allI impI)
    fix k assume "fontFilesLoaded (unloadSoundFonts st) k \<noteq> fontFilesLoaded st k"
    then have k: "k \<in> set ks" by (simp add: m split: if_splits)
    then have "unload_packet k \<in> set (new_packets st (unloadSoundFonts st))"
      unfolding np by simp
    with k ks show "fontFilesLoaded (unloadSoundFonts st) k = None \<and>
      k \<in> set (fst (getSoundFonts st)) \<and> k \<notin> set (fontsInUse st) \<and>
      unload_packet k \<in> set (new_packets st (unloadSoundFonts st))"
      by (auto simp: m)
  qed
  from ks np have c: "\<exists>ks. set ks \<subseteq> set (fst (getSoundFonts st)) - set (fontsInUse st) \<and>
      new_packets st (unloadSoundFonts st) =
        [''fonts'' @ [nl], ''echo '' @ [dq, dq, nl], ''echo '' @ eof st @ [nl]] @
        map unload_packet ks" by blast
  from a b c fiu show ?thesis by blast
qed

lemma two_fonts_listed: "getSoundFonts two_fonts_st =
    ([1, 2], two_fonts_st\<lparr>clientsocket := clientsocket (snd (cmd_read two_fonts_st ''fonts''))\<rparr>)"
proof -
  have a: "fst (cmd_read two_fonts_st ''fonts'') = fonts_listing"
    by (simp add: cmd_read_blocking read_loop.simps framed_def sock_recv_def two_fonts_st_def
        init_api_def fonts_stream_def fonts_listing_def answer_def max_reads_def Let_def)
  have l: "py_splitlines fonts_listing =
     [''ID  Name'', '' 1  /home/user/sf2/Choir.sf2'', '' 2  /home/user/sf2/Brass.sf2'']"
    by (simp add: py_splitlines_def fonts_listing_def)
  have i: "line_id ''ID  Name'' = None" "line_id '' 1  /home/user/sf2/Choir.sf2'' = Some 1"
    "line_id '' 2  /home/user/sf2/Brass.sf2'' = Some 2"
    by (simp_all add: line_id_def py_split_def is_space_def py_int_def py_isdigit_def is_digit_def
        digits_val_def digit_val_def)
  have "fst (getSoundFonts two_fonts_st) = [1, 2]"
    using a by (cases "cmd_read two_fonts_st ''fonts''")
      (simp add: getSoundFonts_def getSoundFonts_loop_map_filter l i List.map_filter_simps)
  with getSoundFonts_state[of two_fonts_st] show ?thesis
    by (cases "getSoundFonts two_fonts_st") simp
qed

theorem unloadSoundFonts_spares_fonts_in_use_witness:
  "1 \<in> set (fontsInUse two_fonts_st) \<and>
   fst (getSoundFonts two_fonts_st) = [1, 2] \<and>
   fontFilesLoaded two_fonts_st 1 = Some ''/home/user/sf2/Choir.sf2'' \<and>
   fontFilesLoaded (unloadSoundFonts two_fonts_st) 1 = Some ''/home/user/sf2/Choir.sf2'' \<and>
   unload_packet 1 \<notin> set (new_packets two_fonts_st (unloadSoundFonts two_fonts_st)) \<and>
   fontFilesLoaded two_fonts_st 2 = Some ''/home/user/sf2/Brass.sf2'' \<and>
   fontFilesLoaded (unloadSoundFonts two_fonts_st) 2 = None \<and>
   unload_packet 2 \<in> set (new_packets two_fonts_st (unloadSoundFonts two_fonts_st)) \<and>
   unload_packet 2 = ''unload 2'' @ [nl]"
proof -
  have in1: "1 \<in> set (fontsInUse two_fonts_st)"
    by (simp add: two_fonts_st_def init_api_def numeral_eq_Suc)
  have nin2: "2 \<notin> set (fontsInUse two_fonts_st)"
    by (simp add: two_fonts_st_def init_api_def numeral_eq_Suc)
  have m: "fontFilesLoaded two_fonts_st 1 = Some ''/home/user/sf2/Choir.sf2''"
    "fontFilesLoaded two_fonts_st 2 = Some ''/home/user/sf2/Brass.sf2''"
    by (simp_all add: two_fonts_st_def init_api_def)
  have m2: "fontFilesLoaded (unloadSoundFonts two_fonts_st) 2 = None"
    using nin2 m in1
    by (simp add: unloadSoundFonts_def two_fonts_listed cmd_nonblocking)
  note t = unloadSoundFonts_spares_fonts_in_use[of two_fonts_st]
  from t in1 have 1: "unload_packet 1 \<notin> set (new_packets two_fonts_st (unloadSoundFonts two_fonts_st)) \<and>
      fontFilesLoaded (unloadSoundFonts two_fonts_st) 1 = fontFilesLoaded two_fonts_st 1"
    by blast
  from t have "fontFilesLoaded (unloadSoundFonts two_fonts_st) 2 \<noteq> fontFilesLoaded two_fonts_st 2 \<longrightarrow>
      unload_packet 2 \<in> set (new_packets two_fonts_st (unloadSoundFonts two_fonts_st))"
    by blast
  with m m2 have 2: "unload_packet 2 \<in> set (new_packets two_fonts_st (unloadSoundFonts two_fonts_st))"
    by simp
  have 3: "unload_packet 2 = ''unload 2'' @ [nl]"
    by (simp add: unload_packet_def py_str_def str_nat.simps digit_char_def)
  from in1 two_fonts_listed m m2 1 2 3 show ?thesis by simp
qed

section \<open>Channel slots and loaded sound fonts\<close>

lemma chan_ok_iff:
  "chan_ok st \<longleftrightarrow> (\<forall>b \<in> set (fontsInUse st). b = - 1 \<or> b \<in> dom (fontFilesLoaded st))"
  by (auto simp: chan_ok_def list_all_iff)

lemma loadSoundFont_keeps:
  "fontsInUse (snd (loadSoundFont st f)) = fontsInUse st \<and>
   dom (fontFilesLoaded st) \<subseteq> dom (fontFilesLoaded (snd (loadSoundFont st f)))"
proof (cases "filter py_isdigit (py_split (fst (cmd_read st (''load '' @ [dq] @ f @ [dq])))) = []")
  case True
  from loadSoundFont_none[OF True] show ?thesis by simp
next
  case False
  from loadSoundFont_found[OF False] show ?thesis by auto
qed

lemma unloadSoundFonts_keeps:
  "fontsInUse (unloadSoundFonts st) = fontsInUse st \<and>
   (\<forall>b \<in> set (fontsInUse st). fontFilesLoaded (unloadSoundFonts st) b = fontFilesLoaded st b)"
proof -
  from unloadSoundFonts_effect[of st] obtain ks where
    ks: "set ks \<subseteq> set (fst (getSoundFonts st)) - set (fontsInUse st)" and
    fiu: "fontsInUse (unloadSoundFonts st) = fontsInUse st" and
    m: "fontFilesLoaded (unloadSoundFonts st) = (\<lambda>k. if k \<in> set ks then None else fontFilesLoaded st k)"
    by blast
  from ks have "\<forall>b \<in> set (fontsInUse st). b \<notin> set ks" by auto
  with fiu m show ?thesis by simp
qed

lemma setInstrument_keeps:
  "fontFilesLoaded (snd (setInstrument st name)) = fontFilesLoaded st \<and>
   (fontsInUse (snd (setInstrument st name)) = fontsInUse st \<or>
    0 \<le> activeSoundFontId st \<and>
    py_setitem (fontsInUse st) (selectedChannel st - 1) (activeSoundFontId st) =
      Some (fontsInUse (snd (setInstrument st name))))"
proof (cases "name = [] \<or> activeSoundFontId st < 0")
  case True
  then show ?thesis by (auto simp: setInstrument_def)
next
  case False
  then have ne: "name \<noteq> []" and act: "\<not> activeSoundFontId st < 0" by simp_all
  show ?thesis
  proof (cases "py_split name")
    case Nil
    with ne act show ?thesis by (simp add: setInstrument_def setInstrument_try_no_token)
  next
    case (Cons p0 ps)
    show ?thesis
    proof (cases "CHR ''-'' \<in> set p0")
      case False
      with ne act show ?thesis
        by (simp add: setInstrument_def setInstrument_try_no_dash[OF Cons])
    next
      case True
      then obtain bank prog others where sp: "py_split_on CHR ''-'' p0 = bank # prog # others"
        using py_split_on_dash by blast
      show ?thesis
        using ne act
        by (simp add: setInstrument_def setInstrument_try_parsed[OF Cons sp] split: option.splits)
    qed
  qed
qed

lemma step_keeps:
  assumes ok: "chan_ok st" and len: "length (fontsInUse st) = 16"
    and act: "\<forall>name. c = SelectInstrument name \<longrightarrow>
       activeSoundFontId st < 0 \<or> fontFilesLoaded st (activeSoundFontId st) \<noteq> None"
  shows "chan_ok (step st c) \<and> length (fontsInUse (step st c)) = 16"
proof (cases c)
  case (LoadBank f)
  with ok len loadSoundFont_keeps[of st f] show ?thesis
    by (auto simp: chan_ok_iff)
next
  case UnloadUnreferenced
  from unloadSoundFonts_keeps[of st] ok len show ?thesis
    unfolding UnloadUnreferenced by (auto simp: chan_ok_iff dom_def)
next
  case (SelectInstrument name)
  from act SelectInstrument
  have a: "activeSoundFontId st < 0 \<or> fontFilesLoaded st (activeSoundFontId st) \<noteq> None" by simp
  note k = setInstrument_keeps[of st name]
  show ?thesis
  proof (cases "fontsInUse (snd (setInstrument st name)) = fontsInUse st")
    case True
    with k ok len show ?thesis unfolding SelectInstrument by (simp add: chan_ok_iff)
  next
    case False
    with k have nn: "0 \<le> activeSoundFontId st" and
      si: "py_setitem (fontsInUse st) (selectedChannel st - 1) (activeSoundFontId st) =
            Some (fontsInUse (snd (setInstrument st name)))" by auto
    from a nn have ld: "activeSoundFontId st \<in> dom (fontFilesLoaded st)" by auto
    from py_setitem_set[OF si] ok ld k
    have "chan_ok (snd (setInstrument st name))"
      by (auto simp: chan_ok_iff)
    with py_setitem_length[OF si] len show ?thesis unfolding SelectInstrument by simp
  qed
qed

lemma run_keeps:
  "chan_ok st \<Longrightarrow> length (fontsInUse st) = 16 \<Longrightarrow> active_loaded st cs \<Longrightarrow>
   chan_ok (run st cs) \<and> length (fontsInUse (run st cs)) = 16"
proof (induction cs arbitrary: st)
  case Nil
  then show ?case by simp
next
  case (Cons c cs)
  have g: "\<forall>name. c = SelectInstrument name \<longrightarrow>
       activeSoundFontId st < 0 \<or> fontFilesLoaded st (activeSoundFontId st) \<noteq> None"
    using Cons.prems(3) by (cases c) auto
  have al: "active_loaded (step st c) cs"
    using Cons.prems(3) by (cases c) auto
  from step_keeps[OF Cons.prems(1,2) g] Cons.IH[OF _ _ al] show ?case by simp
qed

lemma init_api_ok: "chan_ok (init_api s) \<and> length (fontsInUse (init_api s)) = 16"
  by (simp add: chan_ok_def init_api_def list_all_iff)

text \<open>
  C8, as the code has it. From the initial state, after any sequence of \<open>loadSoundFont\<close>,
  \<open>unloadSoundFonts\<close> and \<open>setInstrument\<close> calls in which every \<open>setInstrument\<close> finds
  the active sound font id negative or among the keys of the map of loaded sound fonts,
  the channel table has 16 slots and each holds \<open>-1\<close> or a key of the map.
\<close>

theorem channel_fonts_loaded:
  "active_loaded (init_api s) cs \<Longrightarrow>
   chan_ok (run (init_api s) cs) \<and>
   length (fontsInUse (run (init_api s) cs)) = 16 \<and>
   (\<forall>i<16. fontsInUse (run (init_api s) cs) ! i = - 1 \<or>
           fontsInUse (run (init_api s) cs) ! i \<in> dom (fontFilesLoaded (run (init_api s) cs)))"
proof -
  assume a: "active_loaded (init_api s) cs"
  from init_api_ok[of s] have "chan_ok (init_api s)" "length (fontsInUse (init_api s)) = 16"
    by simp_all
  from run_keeps[OF this a] have
    r: "chan_ok (run (init_api s) cs)" "length (fontsInUse (run (init_api s) cs)) = 16"
    by simp_all
  from r have "\<forall>i<16. fontsInUse (run (init_api s) cs) ! i = - 1 \<or>
           fontsInUse (run (init_api s) cs) ! i \<in> dom (fontFilesLoaded (run (init_api s) cs))"
    by (auto simp: chan_ok_iff)
  with r show ?thesis by blast
qed


lemma fresh_load:
  "loadSoundFont fresh_st ''/home/user/sf2/Choir.sf2'' =
     (1, fresh_st\<lparr>fontFilesLoaded := [1 \<mapsto> ''/home/user/sf2/Choir.sf2''],
           activeSoundFontId := 1, activeSoundFontFile := ''/home/user/sf2/Choir.sf2'',
           clientsocket := \<lparr>sent = [''load '' @ [dq] @ ''/home/user/sf2/Choir.sf2'' @ [dq, nl],
                                     ''echo '' @ [dq, dq, nl], ''echo .'' @ [nl]],
                             incoming = (\<lambda>n. load_list_stream (Suc n))\<rparr>\<rparr>)"
  by (simp add: loadSoundFont_def cmd_read_blocking read_loop.simps framed_def sock_recv_def
      fresh_st_def init_api_def load_list_stream_def answer_def max_reads_def Let_def
      py_split_def is_space_def py_isdigit_def is_digit_def py_int_def digits_val_def digit_val_def)


lemma fresh_unload:
  "fontFilesLoaded (unloadSoundFonts (snd (loadSoundFont fresh_st ''/home/user/sf2/Choir.sf2''))) 1 = None \<and>
   activeSoundFontId (unloadSoundFonts (snd (loadSoundFont fresh_st ''/home/user/sf2/Choir.sf2''))) = 1 \<and>
   selectedChannel (unloadSoundFonts (snd (loadSoundFont fresh_st ''/home/user/sf2/Choir.sf2''))) = 1 \<and>
   fontsInUse (unloadSoundFonts (snd (loadSoundFont fresh_st ''/home/user/sf2/Choir.sf2''))) = replicate 16 (- 1) \<and>
   instrumentsInUse (unloadSoundFonts (snd (loadSoundFont fresh_st ''/home/user/sf2/Choir.sf2''))) = replicate 16 []"
  unfolding fresh_load snd_conv
  by (simp add: unloadSoundFonts_def getSoundFonts_def cmd_read_blocking read_loop.simps framed_def
      sock_recv_def fresh_st_def init_api_def load_list_stream_def answer_def max_reads_def Let_def
      py_splitlines_def py_split_def is_space_def py_isdigit_def is_digit_def py_int_def
      digits_val_def digit_val_def cmd_nonblocking)

text \<open>
  C8 as stated does not hold: a sound font is loaded with id 1, \<open>unloadSoundFonts\<close>
  removes it, as it is in no channel slot, and \<open>setInstrument\<close> then writes the id 1,
  still the active one, into the slot of channel 1.
\<close>

theorem channel_holds_unloaded_font:
  "fontsInUse (run fresh_st
     [LoadBank ''/home/user/sf2/Choir.sf2'', UnloadUnreferenced, SelectInstrument ''000-000 Aah'']) ! 0 = 1 \<and>
   fontFilesLoaded (run fresh_st
     [LoadBank ''/home/user/sf2/Choir.sf2'', UnloadUnreferenced, SelectInstrument ''000-000 Aah'']) 1 = None \<and>
   \<not> chan_ok (run fresh_st
     [LoadBank ''/home/user/sf2/Choir.sf2'', UnloadUnreferenced, SelectInstrument ''000-000 Aah''])"
proof -
  let ?S2 = "unloadSoundFonts (snd (loadSoundFont fresh_st ''/home/user/sf2/Choir.sf2''))"
  have tok: "py_split ''000-000 Aah'' = (''000'' @ ''-'' @ ''000'') # [''Aah'']"
    by (simp add: py_split_def is_space_def)
  have s: "setInstrument ?S2 ''000-000 Aah'' =
     (Inr (PyBool True),
      ?S2\<lparr>fontsInUse := (fontsInUse ?S2)
             [nat (if selectedChannel ?S2 - 1 < 0 then 16 + (selectedChannel ?S2 - 1)
                   else selectedChannel ?S2 - 1) := activeSoundFontId ?S2],
         instrumentsInUse := (instrumentsInUse ?S2)
             [nat (if selectedChannel ?S2 - 1 < 0 then 16 + (selectedChannel ?S2 - 1)
                   else selectedChannel ?S2 - 1) := ''000-000 Aah''],
         activeChannel := selectedChannel ?S2, activeInstrument := ''000-000 Aah'',
         clientsocket := (clientsocket ?S2)\<lparr>sent := sent (clientsocket ?S2) @
           [select_packet (selectedChannel ?S2 - 1) (activeSoundFontId ?S2) ''000'' ''000'']\<rparr>\<rparr>)"
    by (rule setInstrument_selected[OF tok]) (simp_all add: fresh_unload)
  have r: "run fresh_st
     [LoadBank ''/home/user/sf2/Choir.sf2'', UnloadUnreferenced, SelectInstrument ''000-000 Aah''] =
     snd (setInstrument ?S2 ''000-000 Aah'')"
    by simp
  have a: "fontsInUse (snd (setInstrument ?S2 ''000-000 Aah'')) = (replicate 16 (- 1))[0 := 1]"
    unfolding s by (simp add: fresh_unload)
  have b: "fontFilesLoaded (snd (setInstrument ?S2 ''000-000 Aah'')) 1 = None"
    unfolding s by (simp add: fresh_unload)
  have c: "\<not> chan_ok (snd (setInstrument ?S2 ''000-000 Aah''))"
    unfolding chan_ok_def a using b by (simp add: numeral_eq_Suc)
  from a have a': "fontsInUse (snd (setInstrument ?S2 ''000-000 Aah'')) ! 0 = 1"
    by (simp add: numeral_eq_Suc)
  from a' b c show ?thesis unfolding r by blast
qed


lemma fresh_select:
  "fontsInUse (snd (setInstrument (snd (loadSoundFont fresh_st ''/home/user/sf2/Choir.sf2'')) ''000-000 Aah'')) =
     (replicate 16 (- 1))[0 := 1]"
proof -
  let ?S1 = "snd (loadSoundFont fresh_st ''/home/user/sf2/Choir.sf2'')"
  have tok: "py_split ''000-000 Aah'' = (''000'' @ ''-'' @ ''000'') # [''Aah'']"
    by (simp add: py_split_def is_space_def)
  have v: "activeSoundFontId ?S1 = 1" "selectedChannel ?S1 = 1"
    "fontsInUse ?S1 = replicate 16 (- 1)" "instrumentsInUse ?S1 = replicate 16 []"
    unfolding fresh_load by (simp_all add: fresh_st_def init_api_def)
  have s: "setInstrument ?S1 ''000-000 Aah'' =
     (Inr (PyBool True),
      ?S1\<lparr>fontsInUse := (fontsInUse ?S1)
             [nat (if selectedChannel ?S1 - 1 < 0 then 16 + (selectedChannel ?S1 - 1)
                   else selectedChannel ?S1 - 1) := activeSoundFontId ?S1],
         instrumentsInUse := (instrumentsInUse ?S1)
             [nat (if selectedChannel ?S1 - 1 < 0 then 16 + (selectedChannel ?S1 - 1)
                   else selectedChannel ?S1 - 1) := ''000-000 Aah''],
         activeChannel := selectedChannel ?S1, activeInstrument := ''000-000 Aah'',
         clientsocket := (clientsocket ?S1)\<lparr>sent := sent (clientsocket ?S1) @
           [select_packet (selectedChannel ?S1 - 1) (activeSoundFontId ?S1) ''000'' ''000'']\<rparr>\<rparr>)"
    by (rule setInstrument_selected[OF tok]) (simp_all add: v)
  show ?thesis unfolding s by (simp add: v)
qed

theorem channel_fonts_loaded_witness:
  "active_loaded fresh_st
     [LoadBank ''/home/user/sf2/Choir.sf2'', SelectInstrument ''000-000 Aah'', UnloadUnreferenced] \<and>
   chan_ok (run fresh_st
     [LoadBank ''/home/user/sf2/Choir.sf2'', SelectInstrument ''000-000 Aah'', UnloadUnreferenced]) \<and>
   fontsInUse (run fresh_st
     [LoadBank ''/home/user/sf2/Choir.sf2'', SelectInstrument ''000-000 Aah'', UnloadUnreferenced]) ! 0 = 1 \<and>
   1 \<in> dom (fontFilesLoaded (run fresh_st
     [LoadBank ''/home/user/sf2/Choir.sf2'', SelectInstrument ''000-000 Aah'', UnloadUnreferenced]))"
proof -
  let ?cs = "[LoadBank ''/home/user/sf2/Choir.sf2'', SelectInstrument ''000-000 Aah'', UnloadUnreferenced]"
  let ?S1 = "snd (loadSoundFont fresh_st ''/home/user/sf2/Choir.sf2'')"
  let ?S2 = "snd (setInstrument ?S1 ''000-000 Aah'')"
  have al: "active_loaded fresh_st ?cs"
    by (simp add: fresh_load)
  note t = channel_fonts_loaded[of "\<lparr>sent = [], incoming = load_list_stream\<rparr>" ?cs,
      folded fresh_st_def, OF al]
  have r: "run fresh_st ?cs = unloadSoundFonts ?S2" by simp
  have "fontsInUse (run fresh_st ?cs) = fontsInUse ?S2"
    unfolding r using unloadSoundFonts_keeps[of ?S2] by blast
  then have z: "fontsInUse (run fresh_st ?cs) ! 0 = 1"
    by (simp add: fresh_select numeral_eq_Suc)
  from t have "fontsInUse (run fresh_st ?cs) ! 0 = - 1 \<or>
      fontsInUse (run fresh_st ?cs) ! 0 \<in> dom (fontFilesLoaded (run fresh_st ?cs))"
    by simp
  with z have d: "1 \<in> dom (fontFilesLoaded (run fresh_st ?cs))" by simp
  from al t z d show ?thesis by blast
qed

end
